theory Spec2Isabelle
  imports Complex_Main "HOL-Library.Word"
begin

section \<open>JavaScript strings and numbers\<close>

text \<open>
  A JavaScript string is a sequence of UTF-16 code units; \<open>length\<close>, \<open>substring\<close> and the
  regular expressions of the plugin (none carries the \<open>u\<close> flag) all work on code units.
  Numbers are modelled as exact reals: every number the modelled functions compute is a
  count, a half of a count, a quotient of counts or a difference of millisecond clock
  readings, and \<open>NaN\<close> is kept apart where the code tests for it.
\<close>

type_synonym jschar = "16 word"
type_synonym jsstring = "jschar list"
type_synonym number = real

definition js :: "string \<Rightarrow> jsstring" where
  "js s = map of_char s"

text \<open>
  The class \<open>\s\<close> of a JavaScript regular expression, which is also what \<open>trim()\<close> strips:
  WhiteSpace (TAB, VT, FF, ZWNBSP and the Unicode space separators) and LineTerminator
  (LF, CR, LS, PS).
\<close>

definition is_ws :: "jschar \<Rightarrow> bool" where
  "is_ws c \<longleftrightarrow>
     (0x0009 \<le> c \<and> c \<le> 0x000D) \<or> c = 0x0020 \<or> c = 0x00A0 \<or> c = 0x1680 \<or>
     (0x2000 \<le> c \<and> c \<le> 0x200A) \<or> c = 0x2028 \<or> c = 0x2029 \<or> c = 0x202F \<or>
     c = 0x205F \<or> c = 0x3000 \<or> c = 0xFEFF"

text \<open>The character class of the code units U+4E00 to U+9FFF.\<close>

definition is_cjk :: "jschar \<Rightarrow> bool" where
  "is_cjk c \<longleftrightarrow> 0x4E00 \<le> c \<and> c \<le> 0x9FFF"

definition trim :: "jsstring \<Rightarrow> jsstring" where
  "trim s = rev (dropWhile is_ws (rev (dropWhile is_ws s)))"

text \<open>
  \<open>s.split(/[...]+/)\<close> for a character class \<open>sep\<close>: the pieces between the maximal runs
  of separators. A leading or a trailing run leaves an empty piece at that end, and the
  empty string splits into one empty piece. \<open>split_ws\<close> is \<open>s.split(/\s+/)\<close>.
\<close>

function split_runs :: "(jschar \<Rightarrow> bool) \<Rightarrow> jsstring \<Rightarrow> jsstring \<Rightarrow> jsstring list" where
  "split_runs sep cur [] = [cur]"
| "split_runs sep cur (c # cs) =
     (if sep c then cur # split_runs sep [] (dropWhile sep cs)
      else split_runs sep (cur @ [c]) cs)"
  by pat_completeness auto
termination
  by (relation "measure (\<lambda>(sep, cur, s). length s)")
     (auto simp: le_imp_less_Suc length_dropWhile_le)

definition split_ws :: "jsstring \<Rightarrow> jsstring list" where
  "split_ws s = split_runs is_ws [] s"

text \<open>\<open>Math.round\<close>: the nearest integer, a tie going up.\<close>

definition Math_round :: "number \<Rightarrow> number" where
  "Math_round x = of_int \<lfloor>x + 1 / 2\<rfloor>"

section \<open>The writing sensor\<close>

text \<open>
  The class \<open>WritingSensor\<close>. The repository holds two revisions of it: \<open>src/sensor.ts\<close>
  (\<open>Plain\<close> below) and a later one that detects pastes and segments Chinese text
  (\<open>PasteAware\<close>). They differ in \<open>getAddedText\<close>, in the tokeniser of \<open>analyzeText\<close> and
  in the word sets of \<open>isAdjective\<close>, \<open>isVerb\<close> and the abstract nouns; every other method
  modelled here has the same text in both. A function that differs, or that calls one
  that does, takes the revision as its first argument.
\<close>

datatype Revision = Plain | PasteAware

subsection \<open>Word counting\<close>

definition chineseChars :: "jsstring \<Rightarrow> jschar list" where
  "chineseChars text = filter is_cjk text"

definition englishOnly :: "jsstring \<Rightarrow> jsstring" where
  "englishOnly text = map (\<lambda>c. if is_cjk c then 0x0020 else c) text"

definition englishWords :: "jsstring \<Rightarrow> jsstring list" where
  "englishWords text = filter (\<lambda>w. length w > 0) (split_ws (trim (englishOnly text)))"

definition countWords :: "jsstring \<Rightarrow> number" where
  "countWords text =
     (if text = [] \<or> length (trim text) = 0 then 0
      else
        let chineseWordCount = real (length (chineseChars text)) * 0.5;
            englishWordCount = real (length (englishWords text))
        in Math_round (chineseWordCount + englishWordCount))"

subsection \<open>Text differences\<close>

text \<open>
  \<open>getAddedText\<close>. Both revisions take the text to be added at the end of the document.
  The later one skips a growth of more than 50 code units as a paste.
\<close>

fun getAddedText :: "Revision \<Rightarrow> jsstring \<Rightarrow> jsstring \<Rightarrow> jsstring" where
  "getAddedText Plain oldText newText =
     (if length newText > length oldText then drop (length oldText) newText else [])"
| "getAddedText PasteAware oldText newText =
     (let lengthDiff = int (length newText) - int (length oldText)
      in if lengthDiff > 50 then []
         else if lengthDiff > 0 then drop (nat (int (length newText) - lengthDiff)) newText
         else [])"

definition getRemovedText :: "jsstring \<Rightarrow> jsstring \<Rightarrow> jsstring" where
  "getRemovedText oldText newText =
     (if length newText < length oldText then
        let diff = length oldText - length newText
        in drop (length oldText - diff) oldText
      else [])"

subsection \<open>Trend\<close>

datatype Trend = Increasing | Decreasing | Stable

text \<open>\<open>xs.slice(-n)\<close> for a positive \<open>n\<close>: the last \<open>n\<close> elements, all of them when there are fewer.\<close>

definition slice_last :: "nat \<Rightarrow> 'a list \<Rightarrow> 'a list" where
  "slice_last n xs = drop (length xs - n) xs"

definition calculateTrend :: "number list \<Rightarrow> Trend" where
  "calculateTrend values =
     (if length values < 3 then Stable
      else
        let recent = slice_last 5 values;
            first = foldl (\<lambda>a b. a + b) 0 (take 2 recent) / 2;
            last = foldl (\<lambda>a b. a + b) 0 (slice_last 2 recent) / 2;
            diff = last - first
        in if diff > 5 then Increasing
           else if diff < - 5 then Decreasing
           else Stable)"

subsection \<open>Metrics and sensor state\<close>

datatype PauseLocation = AtStart | MidSentence | EndSentence | EndParagraph | Unknown

record WritingMetrics =
  wpm :: number
  totalWords :: number
  sessionDuration :: number
  adjectiveRatio :: number
  verbRatio :: number
  abstractNounRatio :: number
  averageSentenceLength :: number
  pauseDuration :: number
  pauseLocation :: PauseLocation
  deletionRatio :: number
  wpmTrend :: Trend
  recentWPM :: "number list"
  currentParagraphLength :: number
  paragraphsSinceLastCoaching :: number

text \<open>
  An \<open>EditEvent\<close>; its field \<open>text\<close> is \<open>added\<close> here. The fields \<open>from\<close> and \<open>to\<close> are
  always written as line 0, column 0 and never read.
\<close>

record EditEvent =
  timestamp :: number
  added :: jsstring
  removed :: jsstring

record WritingSensor =
  metrics :: WritingMetrics
  lastText :: jsstring
  lastEditTime :: number
  sessionStartTime :: number
  editHistory :: "EditEvent list"
  recentWPMReadings :: "number list"
  isFirstEdit :: bool

definition getDefaultMetrics :: WritingMetrics where
  "getDefaultMetrics =
     \<lparr> wpm = 0, totalWords = 0, sessionDuration = 0, adjectiveRatio = 0, verbRatio = 0,
       abstractNounRatio = 0, averageSentenceLength = 0, pauseDuration = 0,
       pauseLocation = Unknown, deletionRatio = 0, wpmTrend = Stable, recentWPM = [],
       currentParagraphLength = 0, paragraphsSinceLastCoaching = 0 \<rparr>"

text \<open>The constructor; \<open>now\<close> is the clock reading of the field initialisers.\<close>

definition new_WritingSensor :: "number \<Rightarrow> WritingSensor" where
  "new_WritingSensor now =
     \<lparr> metrics = getDefaultMetrics, lastText = [], lastEditTime = now,
       sessionStartTime = now, editHistory = [], recentWPMReadings = [],
       isFirstEdit = True \<rparr>"

text \<open>
  What \<open>onEditorChange\<close> reads from the host editor: the document, the cursor column, the
  line under the cursor and the line after it (absent at the end of the document).
\<close>

record Editor =
  getValue :: jsstring
  cursor_ch :: nat
  cursor_line_text :: jsstring
  next_line_text :: "jsstring option"

definition endsWith :: "jsstring \<Rightarrow> jsstring \<Rightarrow> bool" where
  "endsWith s e \<longleftrightarrow> length e \<le> length s \<and> drop (length s - length e) s = e"

definition updatePauseLocation :: "Editor \<Rightarrow> WritingSensor \<Rightarrow> WritingSensor" where
  "updatePauseLocation editor s =
     (let line = cursor_line_text editor;
          beforeCursor = take (cursor_ch editor) line;
          loc =
            (if trim beforeCursor = [] then AtStart
             else if endsWith beforeCursor [0x002E] \<or> endsWith beforeCursor [0x3002] \<or>
                     endsWith beforeCursor [0x0021] \<or> endsWith beforeCursor [0x003F]
               then EndSentence
             else if trim line = trim beforeCursor \<and> cursor_ch editor = length line then
               (case next_line_text editor of
                  None \<Rightarrow> EndParagraph
                | Some nextLine \<Rightarrow>
                    if nextLine = [] \<or> trim nextLine = [] then EndParagraph else EndSentence)
             else MidSentence)
      in s\<lparr>metrics := (metrics s)\<lparr>pauseLocation := loc\<rparr>\<rparr>)"

text \<open>
  \<open>onEditorChange\<close>; \<open>now\<close> is its clock reading. The first change after a reset is the
  loading of the file and records nothing.
\<close>

definition onEditorChange ::
  "Revision \<Rightarrow> number \<Rightarrow> Editor \<Rightarrow> WritingSensor \<Rightarrow> WritingSensor" where
  "onEditorChange rv now editor s =
     (let currentText = getValue editor
      in if isFirstEdit s then s\<lparr>lastText := currentText, isFirstEdit := False\<rparr>
         else
           let addedText = getAddedText rv (lastText s) currentText;
               removedText = getRemovedText (lastText s) currentText;
               s1 =
                 (if length addedText > 0 \<or> length removedText > 0 then
                    let pushed = editHistory s @
                          [\<lparr>timestamp = now, added = addedText, removed = removedText\<rparr>];
                        tenMinutesAgo = now - 600000
                    in s\<lparr>editHistory := filter (\<lambda>e. timestamp e > tenMinutesAgo) pushed,
                         lastEditTime := now\<rparr>
                  else s);
               s2 = s1\<lparr>lastText := currentText\<rparr>
           in updatePauseLocation editor s2)"

definition calculateWPM :: "number \<Rightarrow> WritingSensor \<Rightarrow> number" where
  "calculateWPM now s =
     (let oneMinuteAgo = now - 60000;
          recentEdits = filter (\<lambda>e. timestamp e > oneMinuteAgo) (editHistory s)
      in foldl (\<lambda>sum edit. sum + countWords (added edit)) 0 recentEdits)"

definition calculateDeletionRatio :: "number \<Rightarrow> WritingSensor \<Rightarrow> number" where
  "calculateDeletionRatio now s =
     (let fiveMinutesAgo = now - 300000;
          recentEdits = filter (\<lambda>e. timestamp e > fiveMinutesAgo) (editHistory s);
          written = foldl (\<lambda>w edit. w + length (added edit)) 0 recentEdits;
          deleted = foldl (\<lambda>d edit. d + length (removed edit)) 0 recentEdits
      in if written > 0 then real deleted / real written else 0)"

subsection \<open>Text analysis\<close>

text \<open>
  What the sensor takes from outside its own file: the built-in \<open>toLowerCase\<close> and, in
  the later revision, the segmenter of the \<open>segmentit\<close> package (the words of its segments,
  or nothing when it throws) and the three word sets of the module \<open>chinese-words\<close>.
\<close>

record Externals =
  toLowerCase :: "jsstring \<Rightarrow> jsstring"
  doSegment :: "jsstring \<Rightarrow> jsstring list option"
  CHINESE_ADJECTIVES :: "jsstring set"
  CHINESE_ABSTRACT_NOUNS :: "jsstring set"
  CHINESE_VERBS :: "jsstring set"

definition ADJECTIVE_ENDINGS :: "jsstring list" where
  "ADJECTIVE_ENDINGS = map js [
    ''ful'', ''less'', ''ous'', ''ive'', ''al'', ''ic'', ''able'', ''ible'', ''ish'',
    ''ly'', ''ary'', ''ory'']"

definition COMMON_ADJECTIVES :: "jsstring list" where
  "COMMON_ADJECTIVES = map js [
    ''good'', ''bad'', ''big'', ''small'', ''large'', ''little'', ''old'', ''young'',
    ''new'', ''long'', ''short'', ''high'', ''low'', ''great'', ''beautiful'', ''dark'',
    ''light'', ''hot'', ''cold'', ''warm'', ''cool'', ''fast'', ''slow'', ''hard'',
    ''soft'', ''loud'', ''quiet'', ''happy'', ''sad'', ''angry'', ''afraid'', ''brave'',
    ''calm'', ''clear'', ''deep'', ''dry'', ''wet'', ''empty'', ''full'', ''heavy'',
    ''thick'', ''thin'', ''wide'', ''narrow'', ''rough'', ''smooth'', ''sharp'', ''sweet'',
    ''sour'', ''bitter'', ''fresh'', ''strange'', ''familiar'', ''certain'', ''possible'',
    ''real'', ''true'', ''false'']"

definition ABSTRACT_NOUNS :: "jsstring list" where
  "ABSTRACT_NOUNS = map js [
    ''love'', ''hate'', ''fear'', ''anxiety'', ''hope'', ''despair'', ''joy'', ''sorrow'',
    ''anger'', ''peace'', ''war'', ''truth'', ''lie'', ''beauty'', ''ugliness'',
    ''justice'', ''injustice'', ''freedom'', ''slavery'', ''power'', ''weakness'',
    ''strength'', ''knowledge'', ''ignorance'', ''wisdom'', ''folly'', ''courage'',
    ''cowardice'', ''faith'', ''doubt'', ''belief'', ''disbelief'', ''trust'',
    ''distrust'', ''honor'', ''shame'', ''pride'', ''humility'', ''guilt'', ''innocence'',
    ''grief'', ''loss'', ''happiness'', ''sadness'', ''loneliness'', ''friendship'',
    ''enmity'', ''loyalty'', ''betrayal'', ''identity'', ''self'', ''soul'', ''spirit'',
    ''mind'', ''heart'', ''memory'', ''dream'', ''reality'', ''fantasy'', ''imagination'',
    ''thought'', ''feeling'', ''emotion'', ''sensation'', ''perception'',
    ''consciousness'', ''meaning'', ''purpose'', ''reason'', ''logic'', ''intuition'',
    ''instinct'', ''desire'', ''need'', ''want'', ''wish'', ''ambition'', ''aspiration'',
    ''goal'', ''success'', ''failure'', ''achievement'', ''disappointment'',
    ''satisfaction'', ''frustration'', ''contentment'', ''discontent'', ''pleasure'',
    ''pain'', ''suffering'', ''bliss'', ''agony'', ''ecstasy'', ''melancholy'',
    ''nostalgia'', ''regret'', ''remorse'', ''forgiveness'', ''resentment'', ''gratitude'',
    ''envy'', ''jealousy'', ''compassion'', ''empathy'', ''sympathy'', ''apathy'',
    ''indifference'', ''relationship'', ''connection'', ''bond'', ''attachment'',
    ''separation'']"

definition COMMON_VERBS :: "jsstring list" where
  "COMMON_VERBS = map js [
    ''be'', ''is'', ''am'', ''are'', ''was'', ''were'', ''been'', ''being'', ''have'',
    ''has'', ''had'', ''having'', ''do'', ''does'', ''did'', ''doing'', ''say'', ''said'',
    ''go'', ''went'', ''gone'', ''get'', ''got'', ''make'', ''made'', ''know'', ''knew'',
    ''think'', ''thought'', ''take'', ''took'', ''see'', ''saw'', ''come'', ''came'',
    ''want'', ''wanted'', ''look'', ''looked'', ''use'', ''used'', ''find'', ''found'',
    ''give'', ''gave'', ''tell'', ''told'', ''work'', ''worked'', ''call'', ''called'',
    ''try'', ''tried'', ''ask'', ''asked'', ''need'', ''needed'', ''feel'', ''felt'',
    ''become'', ''became'', ''leave'', ''left'', ''put'', ''mean'', ''keep'', ''kept'',
    ''let'', ''begin'', ''began'', ''seem'', ''seemed'', ''help'', ''show'', ''showed'',
    ''hear'', ''heard'', ''play'', ''played'', ''run'', ''ran'', ''move'', ''moved'',
    ''live'', ''lived'', ''believe'', ''believed'', ''hold'', ''held'', ''bring'',
    ''brought'', ''happen'', ''happened'', ''write'', ''wrote'', ''written'', ''sit'',
    ''sat'', ''stand'', ''stood'', ''lose'', ''lost'', ''pay'', ''paid'', ''meet'',
    ''met'', ''include'', ''included'', ''continue'', ''continued'', ''set'', ''learn'',
    ''learned'', ''change'', ''changed'', ''lead'', ''led'', ''understand'',
    ''understood'', ''watch'', ''watched'', ''follow'', ''followed'', ''stop'',
    ''stopped'', ''create'', ''created'', ''speak'', ''spoke'', ''spoken'', ''read'',
    ''allow'', ''allowed'', ''add'', ''added'', ''spend'', ''spent'', ''grow'', ''grew'',
    ''grown'', ''open'', ''opened'', ''walk'', ''walked'', ''win'', ''won'', ''offer'',
    ''offered'', ''remember'', ''remembered'', ''consider'', ''considered'', ''appear'',
    ''appeared'', ''buy'', ''bought'', ''wait'', ''waited'', ''serve'', ''served'',
    ''die'', ''died'', ''send'', ''sent'', ''expect'', ''expected'', ''build'', ''built'',
    ''stay'', ''stayed'', ''fall'', ''fell'']"

definition simple_words :: "Externals \<Rightarrow> jsstring \<Rightarrow> jsstring list" where
  "simple_words ext text = filter (\<lambda>w. length w > 0) (split_ws (toLowerCase ext text))"

definition segmentText :: "Externals \<Rightarrow> jsstring \<Rightarrow> jsstring list" where
  "segmentText ext text =
     (let hasChinese = list_ex is_cjk text
      in if hasChinese then
           (case doSegment ext text of
              Some segments \<Rightarrow>
                filter (\<lambda>word. length word > 0) (map (\<lambda>w. toLowerCase ext (trim w)) segments)
            | None \<Rightarrow> simple_words ext text)
         else simple_words ext text)"

fun isAdjective :: "Revision \<Rightarrow> Externals \<Rightarrow> jsstring \<Rightarrow> bool" where
  "isAdjective Plain ext word =
     (if word \<in> set COMMON_ADJECTIVES then True
      else list_ex (\<lambda>ending. endsWith word ending) ADJECTIVE_ENDINGS)"
| "isAdjective PasteAware ext word =
     (if word \<in> set COMMON_ADJECTIVES then True
      else if list_ex (\<lambda>ending. endsWith word ending) ADJECTIVE_ENDINGS then True
      else if word \<in> CHINESE_ADJECTIVES ext then True
      else False)"

fun isVerb :: "Revision \<Rightarrow> Externals \<Rightarrow> jsstring \<Rightarrow> bool" where
  "isVerb Plain ext word =
     (if word \<in> set COMMON_VERBS then True
      else if endsWith word (js ''ing'') \<or> endsWith word (js ''ed'') then True
      else False)"
| "isVerb PasteAware ext word =
     (if word \<in> set COMMON_VERBS then True
      else if endsWith word (js ''ing'') \<or> endsWith word (js ''ed'') then True
      else if word \<in> CHINESE_VERBS ext then True
      else False)"

text \<open>
  The test of the abstract nouns: \<open>ABSTRACT_NOUNS.has(w)\<close> in the earlier revision, the
  method \<open>isAbstractNoun\<close> in the later one.
\<close>

fun isAbstractNoun :: "Revision \<Rightarrow> Externals \<Rightarrow> jsstring \<Rightarrow> bool" where
  "isAbstractNoun Plain ext word = (word \<in> set ABSTRACT_NOUNS)"
| "isAbstractNoun PasteAware ext word =
     (if word \<in> set ABSTRACT_NOUNS then True
      else if word \<in> CHINESE_ABSTRACT_NOUNS ext then True
      else False)"

text \<open>
  The words of \<open>analyzeText\<close>: the lower-cased text split at white space in the earlier
  revision, \<open>segmentText\<close> in the later one.
\<close>

fun analysis_words :: "Revision \<Rightarrow> Externals \<Rightarrow> jsstring \<Rightarrow> jsstring list" where
  "analysis_words Plain ext text = simple_words ext text"
| "analysis_words PasteAware ext text = segmentText ext text"

text \<open>The sentence terminators of \<open>analyzeText\<close>: full stop, ! and ?, and their full-width forms.\<close>

definition is_sentence_end :: "jschar \<Rightarrow> bool" where
  "is_sentence_end c \<longleftrightarrow>
     c = 0x002E \<or> c = 0x0021 \<or> c = 0x003F \<or> c = 0x3002 \<or> c = 0xFF01 \<or> c = 0xFF1F"

text \<open>\<open>text.split(/\n\n+/)\<close>: the separators are the runs of two or more line feeds.\<close>

function split_paragraphs :: "jsstring \<Rightarrow> jsstring \<Rightarrow> jsstring list" where
  "split_paragraphs cur [] = [cur]"
| "split_paragraphs cur [c] = [cur @ [c]]"
| "split_paragraphs cur (c # d # cs) =
     (if c = 0x000A \<and> d = 0x000A
      then cur # split_paragraphs [] (dropWhile (\<lambda>x. x = 0x000A) cs)
      else split_paragraphs (cur @ [c]) (d # cs))"
  by pat_completeness auto
termination
  by (relation "measure (\<lambda>(cur, s). length s)")
     (auto simp: le_imp_less_Suc length_dropWhile_le less_Suc_eq_le le_SucI)

definition analyzeText ::
  "Revision \<Rightarrow> Externals \<Rightarrow> jsstring \<Rightarrow> WritingMetrics \<Rightarrow> WritingMetrics" where
  "analyzeText rv ext text m =
     (let words = analysis_words rv ext text;
          totalWords = length words
      in if totalWords = 0 then
           m\<lparr>adjectiveRatio := 0, verbRatio := 0, abstractNounRatio := 0,
             averageSentenceLength := 0\<rparr>
         else
           let adjectives = filter (isAdjective rv ext) words;
               verbs = filter (isVerb rv ext) words;
               abstractNouns = filter (isAbstractNoun rv ext) words;
               sentences = filter (\<lambda>s. length (trim s) > 0) (split_runs is_sentence_end [] text);
               avg =
                 (if length sentences > 0 then
                    foldl (\<lambda>sum s. sum + countWords s) 0 sentences / real (length sentences)
                  else 0);
               paragraphs = split_paragraphs [] text;
               lastParagraph = (if paragraphs = [] then [] else last paragraphs)
           in m\<lparr>adjectiveRatio := real (length adjectives) / real totalWords,
                verbRatio := real (length verbs) / real totalWords,
                abstractNounRatio := real (length abstractNouns) / real totalWords,
                averageSentenceLength := avg,
                currentParagraphLength := countWords lastParagraph\<rparr>)"

text \<open>
  \<open>updateMetrics\<close>, the recomputation that the sensor's timer runs every five seconds.
  It reads the clock three times: in its own body (\<open>now\<close>), in \<open>calculateWPM\<close> (\<open>nowW\<close>)
  and in \<open>calculateDeletionRatio\<close> (\<open>nowD\<close>). The listener of the sensor receives a copy
  of the metrics and cannot write to the sensor.
\<close>

definition updateMetrics ::
  "Revision \<Rightarrow> Externals \<Rightarrow> number \<Rightarrow> number \<Rightarrow> number \<Rightarrow> WritingSensor \<Rightarrow>
   WritingSensor" where
  "updateMetrics rv ext now nowW nowD s =
     (let m1 = (metrics s)\<lparr>sessionDuration := (now - sessionStartTime s) / 60000\<rparr>;
          m2 = m1\<lparr>wpm := calculateWPM nowW s\<rparr>;
          pushed = recentWPMReadings s @ [wpm m2];
          readings = (if length pushed > 10 then tl pushed else pushed);
          m3 = m2\<lparr>recentWPM := readings, wpmTrend := calculateTrend readings\<rparr>;
          m4 = (if lastText s \<noteq> [] then analyzeText rv ext (lastText s) m3 else m3);
          m5 = m4\<lparr>pauseDuration := (now - lastEditTime s) / 1000\<rparr>;
          m6 = m5\<lparr>deletionRatio := calculateDeletionRatio nowD s\<rparr>;
          m7 = m6\<lparr>totalWords := countWords (lastText s)\<rparr>
      in s\<lparr>metrics := m7, recentWPMReadings := readings\<rparr>)"

section \<open>The trigger engine\<close>

subsection \<open>Values and \<open>parseFloat\<close>\<close>

text \<open>
  The numbers that \<open>evaluateCondition\<close> compares: a finite number, taken as an exact real,
  the two infinities and \<open>NaN\<close>.
\<close>

datatype jsnumber = Num real | PosInfinity | NegInfinity | NaN

text \<open>
  The values a metric can hold (a number, a string, a list of numbers), a boolean, and
  \<open>undefined\<close>, which a key that the metrics do not have looks up.
\<close>

datatype jsvalue =
    JNumber jsnumber
  | JString jsstring
  | JBoolean bool
  | JArray "jsnumber list"
  | JUndefined

definition isNaN :: "jsnumber \<Rightarrow> bool" where
  "isNaN x \<longleftrightarrow> x = NaN"

text \<open>The comparisons \<open>a < b\<close>, \<open>a <= b\<close> and \<open>a === b\<close> of two numbers; any of them is false on \<open>NaN\<close>.\<close>

fun js_less :: "jsnumber \<Rightarrow> jsnumber \<Rightarrow> bool" where
  "js_less NaN b = False"
| "js_less a NaN = False"
| "js_less (Num x) (Num y) = (x < y)"
| "js_less a NegInfinity = False"
| "js_less PosInfinity b = False"
| "js_less NegInfinity b = True"
| "js_less (Num x) PosInfinity = True"

definition js_strict_eq :: "jsnumber \<Rightarrow> jsnumber \<Rightarrow> bool" where
  "js_strict_eq a b \<longleftrightarrow> (if isNaN a \<or> isNaN b then False else a = b)"

definition js_less_eq :: "jsnumber \<Rightarrow> jsnumber \<Rightarrow> bool" where
  "js_less_eq a b \<longleftrightarrow> js_less a b \<or> js_strict_eq a b"

definition is_digit :: "jschar \<Rightarrow> bool" where
  "is_digit c \<longleftrightarrow> 0x0030 \<le> c \<and> c \<le> 0x0039"

definition digits_value :: "jsstring \<Rightarrow> nat" where
  "digits_value ds = foldl (\<lambda>a d. 10 * a + (unat d - 48)) 0 ds"

definition startsWith :: "jsstring \<Rightarrow> jsstring \<Rightarrow> bool" where
  "startsWith s p \<longleftrightarrow> take (length p) s = p"

text \<open>The exponent part that follows a mantissa: \<open>e\<close> or \<open>E\<close>, a sign if any, and digits; 0 without one.\<close>

definition parse_exponent :: "jsstring \<Rightarrow> int" where
  "parse_exponent r =
     (case r of
        [] \<Rightarrow> 0
      | c # r1 \<Rightarrow>
          if c = 0x0065 \<or> c = 0x0045 then
            (let (negative, r2) =
                   (case r1 of
                      [] \<Rightarrow> (False, [])
                    | d # r3 \<Rightarrow> if d = 0x002D then (True, r3)
                               else if d = 0x002B then (False, r3) else (False, r1));
                 ds = takeWhile is_digit r2
             in if ds = [] then 0
                else if negative then - int (digits_value ds) else int (digits_value ds))
          else 0)"

text \<open>
  \<open>parseFloat\<close> of a string: leading white space is skipped, and the longest prefix that is
  a decimal literal (a sign, then \<open>Infinity\<close> or digits with a fraction and an exponent) is
  the value; \<open>NaN\<close> when there is no such prefix.
\<close>

definition parseFloat :: "jsstring \<Rightarrow> jsnumber" where
  "parseFloat inputString =
     (let trimmed = dropWhile is_ws inputString;
          (negative, body) =
            (case trimmed of
               [] \<Rightarrow> (False, [])
             | c # r \<Rightarrow> if c = 0x002D then (True, r)
                        else if c = 0x002B then (False, r) else (False, trimmed))
      in if startsWith body (js ''Infinity'') then (if negative then NegInfinity else PosInfinity)
         else
           let intDigits = takeWhile is_digit body;
               r1 = dropWhile is_digit body;
               (fracDigits, r2) =
                 (case r1 of
                    [] \<Rightarrow> ([], [])
                  | c # r \<Rightarrow> if c = 0x002E then (takeWhile is_digit r, dropWhile is_digit r)
                             else ([], r1))
           in if intDigits = [] \<and> fracDigits = [] then NaN
              else
                let mantissa = real (digits_value intDigits) +
                               real (digits_value fracDigits) / 10 ^ length fracDigits;
                    exponent = parse_exponent r2;
                    magnitude = (if exponent \<ge> 0 then mantissa * 10 ^ nat exponent
                                 else mantissa / 10 ^ nat (- exponent))
                in Num (if negative then - magnitude else magnitude))"

text \<open>
  \<open>parseFloat(value)\<close> of a value that is not a number: the value is converted to a string
  first. A list of numbers converts to its elements joined by commas, of which \<open>parseFloat\<close>
  reads the first; writing a number out and reading it back gives the number.
\<close>

definition parseFloat_value :: "jsvalue \<Rightarrow> jsnumber" where
  "parseFloat_value v =
     (case v of
        JNumber n \<Rightarrow> n
      | JString s \<Rightarrow> parseFloat s
      | JBoolean b \<Rightarrow> parseFloat (if b then js ''true'' else js ''false'')
      | JArray xs \<Rightarrow> (case xs of [] \<Rightarrow> parseFloat [] | x # _ \<Rightarrow> x)
      | JUndefined \<Rightarrow> parseFloat (js ''undefined''))"

subsection \<open>Conditions\<close>

text \<open>
  The regular expression \<open>/([><]=?|=)\s*(-?\d+\.?\d*)/\<close> of \<open>evaluateCondition\<close>.
  \<open>match_number\<close> is the part after the operator: white space, then the second group. It
  gives the text of the group. Taking less white space, or leaving the minus sign out,
  never lets a number match where the greedy choice did not.
\<close>

definition match_number :: "jsstring \<Rightarrow> jsstring option" where
  "match_number r =
     (let r1 = dropWhile is_ws r;
          (sign, r2) =
            (case r1 of
               [] \<Rightarrow> ([], [])
             | c # r3 \<Rightarrow> if c = 0x002D then ([c], r3) else ([], r1));
          intDigits = takeWhile is_digit r2;
          r4 = dropWhile is_digit r2
      in if intDigits = [] then None
         else
           (case r4 of
              [] \<Rightarrow> Some (sign @ intDigits)
            | c # r5 \<Rightarrow>
                if c = 0x002E then Some (sign @ intDigits @ [c] @ takeWhile is_digit r5)
                else Some (sign @ intDigits)))"

text \<open>
  A match that starts at the head of the string: the operator and the text of the number.
  The alternatives of the first group are tried in the order of the expression.
\<close>

definition match_here :: "jsstring \<Rightarrow> (jsstring \<times> jsstring) option" where
  "match_here s =
     (case s of
        [] \<Rightarrow> None
      | c # r \<Rightarrow>
          let with_eq =
                (if (c = 0x003E \<or> c = 0x003C) \<and> startsWith r [0x003D] then
                   (case match_number (drop 1 r) of
                      None \<Rightarrow> None
                    | Some n \<Rightarrow> Some ([c, 0x003D], n))
                 else None);
              without_eq =
                (if c = 0x003E \<or> c = 0x003C then
                   (case match_number r of None \<Rightarrow> None | Some n \<Rightarrow> Some ([c], n))
                 else None);
              eq_alone =
                (if c = 0x003D then
                   (case match_number r of None \<Rightarrow> None | Some n \<Rightarrow> Some ([c], n))
                 else None)
          in (case with_eq of
                Some m \<Rightarrow> Some m
              | None \<Rightarrow> (case without_eq of Some m \<Rightarrow> Some m | None \<Rightarrow> eq_alone)))"

text \<open>\<open>condition.match(...)\<close>: the leftmost match anywhere in the string.\<close>

fun numericMatch :: "jsstring \<Rightarrow> (jsstring \<times> jsstring) option" where
  "numericMatch [] = None"
| "numericMatch (c # cs) =
     (case match_here (c # cs) of Some m \<Rightarrow> Some m | None \<Rightarrow> numericMatch cs)"

text \<open>
  \<open>evaluateCondition\<close>. No operation of its body can raise on a condition that is a string
  and a value of the type above, so the function is total and returns a boolean. A
  \<open>switch\<close> that no case leaves goes on to the key words.
\<close>

definition evaluateCondition :: "jsvalue \<Rightarrow> jsstring \<Rightarrow> bool" where
  "evaluateCondition v condition =
     (let numeric =
            (case numericMatch condition of
               None \<Rightarrow> None
             | Some (operator, num) \<Rightarrow>
                 let threshold = parseFloat num;
                     numValue = (case v of JNumber n \<Rightarrow> n | _ \<Rightarrow> parseFloat_value v)
                 in if isNaN numValue then Some False
                    else if operator = js ''>'' then Some (js_less threshold numValue)
                    else if operator = js ''<'' then Some (js_less numValue threshold)
                    else if operator = js ''>='' then Some (js_less_eq threshold numValue)
                    else if operator = js ''<='' then Some (js_less_eq numValue threshold)
                    else if operator = js ''='' then Some (js_strict_eq numValue threshold)
                    else None)
      in case numeric of
           Some b \<Rightarrow> b
         | None \<Rightarrow>
             if condition = js ''increasing'' \<or> condition = js ''decreasing'' \<or>
                condition = js ''stable'' then v = JString condition
             else if condition = js ''start'' \<or> condition = js ''mid-sentence'' \<or>
                     condition = js ''end-sentence'' \<or> condition = js ''end-paragraph''
               then v = JString condition
             else if condition = js ''true'' then v = JBoolean True
             else if condition = js ''false'' then v = JBoolean False
             else False)"

definition pauseLocation_string :: "PauseLocation \<Rightarrow> jsstring" where
  "pauseLocation_string l =
     (case l of
        AtStart \<Rightarrow> js ''start''
      | MidSentence \<Rightarrow> js ''mid-sentence''
      | EndSentence \<Rightarrow> js ''end-sentence''
      | EndParagraph \<Rightarrow> js ''end-paragraph''
      | Unknown \<Rightarrow> js ''unknown'')"

definition trend_string :: "Trend \<Rightarrow> jsstring" where
  "trend_string t =
     (case t of
        Increasing \<Rightarrow> js ''increasing''
      | Decreasing \<Rightarrow> js ''decreasing''
      | Stable \<Rightarrow> js ''stable'')"

text \<open>
  \<open>metrics[metricKey]\<close>. A key that is not a field of the metrics gives \<open>undefined\<close>; so is
  taken every inherited property of the object, none of which is a number, a string or a
  boolean.
\<close>

definition metric_value :: "WritingMetrics \<Rightarrow> jsstring \<Rightarrow> jsvalue" where
  "metric_value m key =
     (if key = js ''wpm'' then JNumber (Num (wpm m))
      else if key = js ''totalWords'' then JNumber (Num (totalWords m))
      else if key = js ''sessionDuration'' then JNumber (Num (sessionDuration m))
      else if key = js ''adjectiveRatio'' then JNumber (Num (adjectiveRatio m))
      else if key = js ''verbRatio'' then JNumber (Num (verbRatio m))
      else if key = js ''abstractNounRatio'' then JNumber (Num (abstractNounRatio m))
      else if key = js ''averageSentenceLength'' then JNumber (Num (averageSentenceLength m))
      else if key = js ''pauseDuration'' then JNumber (Num (pauseDuration m))
      else if key = js ''pauseLocation'' then JString (pauseLocation_string (pauseLocation m))
      else if key = js ''deletionRatio'' then JNumber (Num (deletionRatio m))
      else if key = js ''wpmTrend'' then JString (trend_string (wpmTrend m))
      else if key = js ''recentWPM'' then JArray (map Num (recentWPM m))
      else if key = js ''currentParagraphLength'' then JNumber (Num (currentParagraphLength m))
      else if key = js ''paragraphsSinceLastCoaching''
        then JNumber (Num (paragraphsSinceLastCoaching m))
      else JUndefined)"

text \<open>\<open>evaluateConditions\<close> over the entries of the conditions, in their order.\<close>

fun evaluateConditions :: "(jsstring \<times> jsstring) list \<Rightarrow> WritingMetrics \<Rightarrow> bool" where
  "evaluateConditions [] m = True"
| "evaluateConditions ((key, condition) # rest) m =
     (let metricKey = (if key = js ''duration'' then js ''sessionDuration'' else key);
          v = metric_value m metricKey
      in if \<not> evaluateCondition v condition then False
         else evaluateConditions rest m)"

subsection \<open>Rules and engine state\<close>

datatype Priority = High | Medium | Low

record TriggerRule =
  rule_name :: jsstring
  description :: jsstring
  conditions :: "(jsstring \<times> jsstring) list"
  appliesTo :: "jsstring list"
  timing_delay :: number
  priority :: Priority
  coachingStyle :: jsstring
  enableChat :: bool
  systemPrompt :: jsstring
  initialMessage :: "jsstring option"
  conversationGuidance :: "jsstring option"

record ConversationRules =
  autoCloseOnWriting :: bool
  maxConversationLength :: number

text \<open>\<open>priorityOverride\<close> is its field \<open>high\<close> when the object is there.\<close>

record GlobalSettings =
  minimumIntervalBetweenTriggers :: number
  priorityOverride :: "number option"
  conversationRules :: "ConversationRules option"

text \<open>\<open>triggers\<close> is the object as \<open>Object.entries\<close> lists it: name and rule, in order.\<close>

record TriggerRules =
  triggers :: "(jsstring \<times> TriggerRule) list"
  globalSettings :: GlobalSettings

record WritingContext =
  writingType :: jsstring
  recentContent :: jsstring
  currentFile :: jsstring

record TriggerEvent =
  event_name :: jsstring
  event_timestamp :: number
  event_metrics :: WritingMetrics
  event_writingType :: jsstring

record TriggerResult =
  triggerName :: jsstring
  result_rule :: TriggerRule
  result_metrics :: WritingMetrics
  result_context :: WritingContext

text \<open>\<open>hasOnTrigger\<close> tells whether a listener is set (\<open>onTrigger\<close> is not null).\<close>

record TriggerEngine =
  rules :: TriggerRules
  lastTriggerTime :: number
  triggerHistory :: "TriggerEvent list"
  hasOnTrigger :: bool
  isPaused :: bool
  devMode :: bool

definition new_TriggerEngine :: "TriggerRules \<Rightarrow> TriggerEngine" where
  "new_TriggerEngine rs =
     \<lparr>rules = rs, lastTriggerTime = 0, triggerHistory = [], hasOnTrigger = False,
      isPaused = False, devMode = False\<rparr>"

definition pause :: "TriggerEngine \<Rightarrow> TriggerEngine" where
  "pause e = e\<lparr>isPaused := True\<rparr>"

definition resume :: "TriggerEngine \<Rightarrow> TriggerEngine" where
  "resume e = e\<lparr>isPaused := False\<rparr>"

definition setOnTrigger :: "TriggerEngine \<Rightarrow> TriggerEngine" where
  "setOnTrigger e = e\<lparr>hasOnTrigger := True\<rparr>"

definition setDevMode :: "bool \<Rightarrow> TriggerEngine \<Rightarrow> TriggerEngine" where
  "setDevMode enabled e = e\<lparr>devMode := enabled\<rparr>"

definition appliesToType :: "TriggerRule \<Rightarrow> jsstring \<Rightarrow> bool" where
  "appliesToType rule wt =
     (if js ''all'' \<in> set (appliesTo rule) then True else wt \<in> set (appliesTo rule))"

text \<open>The two intervals of \<open>checkTriggers\<close>, in milliseconds.\<close>

definition minInterval :: "TriggerEngine \<Rightarrow> number" where
  "minInterval e =
     (if devMode e then 60000
      else minimumIntervalBetweenTriggers (globalSettings (rules e)) * 1000)"

definition highPriorityInterval :: "TriggerEngine \<Rightarrow> number" where
  "highPriorityInterval e =
     (if devMode e then 30000
      else (case priorityOverride (globalSettings (rules e)) of
              None \<Rightarrow> 180
            | Some high \<Rightarrow> if high = 0 then 180 else high) * 1000)"

text \<open>
  What a call of the engine gives back: the engine after the call, the value returned, and
  the calls of the listener, each with the engine as it stands at that call. The listener
  of the plugin, \<open>handleTrigger\<close>, does not call into the engine.
\<close>

record Outcome =
  engine :: TriggerEngine
  returned :: "TriggerResult option"
  notified :: "(TriggerEngine \<times> TriggerResult) list"

text \<open>
  The loop of \<open>checkTriggers\<close> over the rules that are still to be looked at. The delay of
  a rule is only written to the log.
\<close>

fun check_rules ::
  "number \<Rightarrow> WritingMetrics \<Rightarrow> jsstring \<Rightarrow> WritingContext \<Rightarrow> TriggerEngine \<Rightarrow>
   (jsstring \<times> TriggerRule) list \<Rightarrow> Outcome" where
  "check_rules now m wt ctx e [] = \<lparr>engine = e, returned = None, notified = []\<rparr>"
| "check_rules now m wt ctx e ((name, rule) # rest) =
     (if \<not> appliesToType rule wt then check_rules now m wt ctx e rest
      else if evaluateConditions (conditions rule) m then
        let timeSinceLastTrigger = now - lastTriggerTime e;
            requiredInterval =
              (if priority rule = High then highPriorityInterval e else minInterval e)
        in if timeSinceLastTrigger < requiredInterval then check_rules now m wt ctx e rest
           else
             let e1 = e\<lparr>lastTriggerTime := now\<rparr>;
                 event = \<lparr>event_name = name, event_timestamp = now, event_metrics = m,
                          event_writingType = wt\<rparr>;
                 e2 = e1\<lparr>triggerHistory := triggerHistory e1 @ [event]\<rparr>;
                 e3 = (if length (triggerHistory e2) > 100
                       then e2\<lparr>triggerHistory := slice_last 100 (triggerHistory e2)\<rparr>
                       else e2);
                 result = \<lparr>triggerName = name, result_rule = rule, result_metrics = m,
                           result_context = ctx\<rparr>
             in \<lparr>engine = e3, returned = Some result,
                 notified = (if hasOnTrigger e3 then [(e3, result)] else [])\<rparr>
      else check_rules now m wt ctx e rest)"

definition checkTriggers ::
  "number \<Rightarrow> WritingMetrics \<Rightarrow> jsstring \<Rightarrow> WritingContext \<Rightarrow> TriggerEngine \<Rightarrow> Outcome" where
  "checkTriggers now m wt ctx e =
     (if isPaused e then \<lparr>engine = e, returned = None, notified = []\<rparr>
      else check_rules now m wt ctx e (triggers (rules e)))"

definition forceTrigger ::
  "jsstring \<Rightarrow> WritingMetrics \<Rightarrow> WritingContext \<Rightarrow> TriggerEngine \<Rightarrow> Outcome" where
  "forceTrigger name m ctx e =
     (case map_of (triggers (rules e)) name of
        None \<Rightarrow> \<lparr>engine = e, returned = None, notified = []\<rparr>
      | Some rule \<Rightarrow>
          let result = \<lparr>triggerName = name, result_rule = rule, result_metrics = m,
                        result_context = ctx\<rparr>
          in \<lparr>engine = e, returned = Some result,
              notified = (if hasOnTrigger e then [(e, result)] else [])\<rparr>)"

subsection \<open>The default rules\<close>

text \<open>\<open>getDefaultTriggerRules\<close> of the configuration manager.\<close>

definition rushing_rule :: TriggerRule where
  "rushing_rule =
     \<lparr>rule_name = js ''Writing Too Fast'',
      description = js ''User is moving through material quickly'',
      conditions = [(js ''wpm'', js ''> 40''), (js ''adjectiveRatio'', js ''< 0.05''),
                    (js ''duration'', js ''> 120'')],
      appliesTo = [js ''scene'', js ''observation''],
      timing_delay = 30,
      priority = Medium,
      coachingStyle = js ''gentle-brake'',
      enableChat = False,
      systemPrompt = js ''The user is writing quickly. Gently remind them to slow down.'',
      initialMessage = None,
      conversationGuidance = None\<rparr>"

definition stuck_rule :: TriggerRule where
  "stuck_rule =
     \<lparr>rule_name = js ''Stuck/Blocked'',
      description = js ''User has paused for extended period'',
      conditions = [(js ''pauseDuration'', js ''> 180''),
                    (js ''currentParagraphLength'', js ''< 50'')],
      appliesTo = [js ''all''],
      timing_delay = 0,
      priority = High,
      coachingStyle = js ''conversational'',
      enableChat = True,
      systemPrompt = js ''The user has been paused. Open with a gentle acknowledgment.'',
      initialMessage =
        Some (js (''Paused here for a bit. Want to talk about what'' @ [CHR 0x27] @
                  ''s happening?'')),
      conversationGuidance = None\<rparr>"

definition getDefaultTriggerRules :: TriggerRules where
  "getDefaultTriggerRules =
     \<lparr>triggers = [(js ''rushing'', rushing_rule), (js ''stuck'', stuck_rule)],
      globalSettings =
        \<lparr>minimumIntervalBetweenTriggers = 300,
         priorityOverride = Some 180,
         conversationRules =
           Some \<lparr>autoCloseOnWriting = True, maxConversationLength = 10\<rparr>\<rparr>\<rparr>"

section \<open>The coaching session\<close>

text \<open>
  The session is spread over three objects: the view (\<open>CoachingView\<close>), which knows whether
  a conversation is open and holds the messages it shows; the client (\<open>ClaudeClient\<close>),
  which holds the turn history it sends to the backend; and the plugin
  (\<open>WritingCoachPlugin\<close>), which wires them. A method that awaits the backend is modelled
  by two functions: \<open>_begin\<close> runs it up to the call of the backend and \<open>_resume\<close> runs the
  rest when the answer arrives, on the state as it is then; other events can come between
  the two. The texts of the prompts and the usage counters of the client are left out.
\<close>

subsection \<open>The client\<close>

datatype Role = User | Assistant

record ConversationMessage =
  role :: Role
  content :: jsstring
  message_timestamp :: number

record ClaudeClient =
  apiKey :: jsstring
  client_conversationHistory :: "ConversationMessage list"

definition new_ClaudeClient :: "jsstring \<Rightarrow> ClaudeClient" where
  "new_ClaudeClient key = \<lparr>apiKey = key, client_conversationHistory = []\<rparr>"

definition hasApiKey :: "ClaudeClient \<Rightarrow> bool" where
  "hasApiKey c \<longleftrightarrow> length (apiKey c) > 0"

definition resetConversation :: "ClaudeClient \<Rightarrow> ClaudeClient" where
  "resetConversation c = c\<lparr>client_conversationHistory := []\<rparr>"

text \<open>A call of the backend: the system prompt and the messages.\<close>

record Request =
  request_system :: jsstring
  request_messages :: "ConversationMessage list"

text \<open>
  Where an asynchronous method stands when it first yields: it has returned a value
  without calling the backend, or a request is in flight.
\<close>

datatype 'a Await = Done 'a | Waiting Request

text \<open>
  The answer of the backend: the text, or the message of the error that \<open>callAPI\<close> throws.
\<close>

type_synonym answer = "jsstring + jsstring"

definition continueConversation_begin ::
  "number \<Rightarrow> jsstring \<Rightarrow> jsstring \<Rightarrow> ClaudeClient \<Rightarrow> ClaudeClient \<times> jsstring Await" where
  "continueConversation_begin now userMessage system c =
     (if \<not> hasApiKey c then (c, Done (js ''Please add your Claude API key in settings.''))
      else
        let c1 = c\<lparr>client_conversationHistory := client_conversationHistory c @
                     [\<lparr>role = User, content = userMessage, message_timestamp = now\<rparr>]\<rparr>
        in (c1, Waiting \<lparr>request_system = system,
                          request_messages = client_conversationHistory c1\<rparr>))"

definition continueConversation_resume ::
  "number \<Rightarrow> answer \<Rightarrow> ClaudeClient \<Rightarrow> ClaudeClient \<times> answer" where
  "continueConversation_resume now ans c =
     (case ans of
        Inr response \<Rightarrow>
          (c\<lparr>client_conversationHistory := client_conversationHistory c @
               [\<lparr>role = Assistant, content = response, message_timestamp = now\<rparr>]\<rparr>,
           Inr response)
      | Inl err \<Rightarrow> (c, Inl err))"

definition generateCoaching_begin ::
  "jsstring \<Rightarrow> jsstring \<Rightarrow> number \<Rightarrow> ClaudeClient \<Rightarrow> jsstring Await" where
  "generateCoaching_begin system userMessage now c =
     (if \<not> hasApiKey c
      then Done (js ''Please add your Claude API key in settings to enable coaching.'')
      else Waiting \<lparr>request_system = system,
                     request_messages =
                       [\<lparr>role = User, content = userMessage, message_timestamp = now\<rparr>]\<rparr>)"

definition generateCoaching_resume ::
  "TriggerRule \<Rightarrow> jsstring \<Rightarrow> number \<Rightarrow> answer \<Rightarrow> ClaudeClient \<Rightarrow> ClaudeClient \<times> answer" where
  "generateCoaching_resume triggerRule userMessage now ans c =
     (case ans of
        Inr response \<Rightarrow>
          ((if enableChat triggerRule then
              c\<lparr>client_conversationHistory :=
                  [\<lparr>role = User, content = userMessage, message_timestamp = now\<rparr>,
                   \<lparr>role = Assistant, content = response, message_timestamp = now\<rparr>]\<rparr>
            else c),
           Inr response)
      | Inl err \<Rightarrow> (c, Inl err))"

subsection \<open>The view\<close>

text \<open>
  What the coaching panel holds: the note of a pending answer, an advice with the name of
  its trigger, or an error.
\<close>

datatype PanelItem = LoadingItem | AdviceItem jsstring jsstring | ErrorItem jsstring

text \<open>
  \<open>opened\<close> tells whether \<open>onOpen\<close> has built the elements of the view. \<open>chatRendered\<close> is
  the list of messages in the history element of the chat panel, when the panel has one.
\<close>

record CoachingView =
  opened :: bool
  isInConversation :: bool
  view_conversationHistory :: "ConversationMessage list"
  coachingShown :: bool
  coachingItems :: "PanelItem list"
  chatShown :: bool
  chatRendered :: "ConversationMessage list option"

definition new_CoachingView :: CoachingView where
  "new_CoachingView =
     \<lparr>opened = False, isInConversation = False, view_conversationHistory = [],
      coachingShown = False, coachingItems = [], chatShown = False, chatRendered = None\<rparr>"

definition onOpen :: "CoachingView \<Rightarrow> CoachingView" where
  "onOpen v = v\<lparr>opened := True, coachingShown := False, coachingItems := [],
                chatShown := False, chatRendered := None\<rparr>"

definition showChatInterface :: "CoachingView \<Rightarrow> CoachingView" where
  "showChatInterface v =
     (if \<not> opened v then v
      else v\<lparr>chatShown := True, isInConversation := True,
             chatRendered := Some (view_conversationHistory v)\<rparr>)"

definition hideChatInterface :: "CoachingView \<Rightarrow> CoachingView" where
  "hideChatInterface v =
     v\<lparr>chatShown := False, isInConversation := False, view_conversationHistory := []\<rparr>"

definition addChatMessage :: "ConversationMessage \<Rightarrow> CoachingView \<Rightarrow> CoachingView" where
  "addChatMessage message v =
     (let v1 = v\<lparr>view_conversationHistory := view_conversationHistory v @ [message]\<rparr>
      in case chatRendered v1 of
           None \<Rightarrow> v1
         | Some shown \<Rightarrow> v1\<lparr>chatRendered := Some (view_conversationHistory v1)\<rparr>)"

definition showCoaching :: "bool \<Rightarrow> jsstring \<Rightarrow> jsstring \<Rightarrow> CoachingView \<Rightarrow> CoachingView" where
  "showCoaching conversation_start trigger message v =
     (if \<not> opened v then v
      else
        let v1 = v\<lparr>coachingItems := [AdviceItem trigger message], coachingShown := True\<rparr>
        in if conversation_start then showChatInterface v1 else v1)"

definition hideCoaching :: "CoachingView \<Rightarrow> CoachingView" where
  "hideCoaching v = hideChatInterface (v\<lparr>coachingShown := False\<rparr>)"

definition showLoading :: "CoachingView \<Rightarrow> CoachingView" where
  "showLoading v =
     (if LoadingItem \<notin> set (coachingItems v) \<and> opened v
      then v\<lparr>coachingShown := True, coachingItems := coachingItems v @ [LoadingItem]\<rparr>
      else v)"

definition hideLoading :: "CoachingView \<Rightarrow> CoachingView" where
  "hideLoading v = v\<lparr>coachingItems := remove1 LoadingItem (coachingItems v)\<rparr>"

definition showError :: "jsstring \<Rightarrow> CoachingView \<Rightarrow> CoachingView" where
  "showError message v =
     (if \<not> opened v then v
      else v\<lparr>coachingItems := [ErrorItem message], coachingShown := True\<rparr>)"

subsection \<open>The plugin\<close>

record WritingCoachPlugin =
  sensor :: WritingSensor
  configRules :: TriggerRules
  claudeClient :: ClaudeClient
  coachingView :: "CoachingView option"
  enabledTriggers :: "jsstring list"
  currentWritingType :: jsstring
  lastContent :: jsstring

text \<open>The plugin after \<open>onload\<close>, with the rules and the settings it loaded; no view yet.\<close>

definition new_plugin ::
  "number \<Rightarrow> TriggerRules \<Rightarrow> jsstring \<Rightarrow> jsstring list \<Rightarrow> jsstring \<Rightarrow> WritingCoachPlugin" where
  "new_plugin now rs key enabled wtype =
     \<lparr>sensor = new_WritingSensor now, configRules = rs, claudeClient = new_ClaudeClient key,
      coachingView = None, enabledTriggers = enabled, currentWritingType = wtype,
      lastContent = []\<rparr>"

text \<open>The host creates the view and opens it.\<close>

definition open_view :: "WritingCoachPlugin \<Rightarrow> WritingCoachPlugin" where
  "open_view p = p\<lparr>coachingView := Some (onOpen new_CoachingView)\<rparr>"

text \<open>\<open>this.coachingView?.getIsInConversation()\<close>: the session is in a conversation.\<close>

definition conversing :: "WritingCoachPlugin \<Rightarrow> bool" where
  "conversing p = (case coachingView p of None \<Rightarrow> False | Some v \<Rightarrow> isInConversation v)"


text \<open>
  \<open>handleTrigger\<close>. What the answer needs of the call: the result and the user message of
  the prompt. \<open>activateView\<close> asks the host to reveal the view and changes no field of the
  plugin itself; where the host has to create the view for it, that is the step \<open>open_view\<close>
  before this one. Awaiting it is taken together with the steps that follow.
\<close>

record PendingTrigger =
  pending_result :: TriggerResult
  pending_userMessage :: jsstring

definition handleTrigger_show ::
  "TriggerResult \<Rightarrow> jsstring \<Rightarrow> WritingCoachPlugin \<Rightarrow> WritingCoachPlugin" where
  "handleTrigger_show res message p =
     (let rule = result_rule res;
          v1 = map_option hideLoading (coachingView p);
          v2 = map_option (showCoaching (enableChat rule) (rule_name rule) message) v1;
          s1 = (sensor p)\<lparr>metrics := (metrics (sensor p))\<lparr>paragraphsSinceLastCoaching := 0\<rparr>\<rparr>
      in p\<lparr>coachingView := v2, sensor := s1\<rparr>)"

definition handleTrigger_begin ::
  "jsstring \<Rightarrow> jsstring \<Rightarrow> number \<Rightarrow> TriggerResult \<Rightarrow> WritingCoachPlugin \<Rightarrow>
   WritingCoachPlugin \<times> (PendingTrigger \<times> Request) option" where
  "handleTrigger_begin system userMessage now res p =
     (if triggerName res \<notin> set (enabledTriggers p) then (p, None)
      else
        let p1 = p\<lparr>coachingView := map_option showLoading (coachingView p)\<rparr>
        in case generateCoaching_begin system userMessage now (claudeClient p1) of
             Done message \<Rightarrow> (handleTrigger_show res message p1, None)
           | Waiting req \<Rightarrow>
               (p1, Some (\<lparr>pending_result = res, pending_userMessage = userMessage\<rparr>, req)))"

definition handleTrigger_resume ::
  "number \<Rightarrow> PendingTrigger \<Rightarrow> answer \<Rightarrow> WritingCoachPlugin \<Rightarrow> WritingCoachPlugin" where
  "handleTrigger_resume now pending ans p =
     (let res = pending_result pending;
          (c1, out) = generateCoaching_resume (result_rule res) (pending_userMessage pending)
                        now ans (claudeClient p);
          p1 = p\<lparr>claudeClient := c1\<rparr>
      in case out of
           Inr message \<Rightarrow> handleTrigger_show res message p1
         | Inl err \<Rightarrow>
             p1\<lparr>coachingView := map_option (showError err)
                                   (map_option hideLoading (coachingView p1))\<rparr>)"

text \<open>\<open>handleChatMessage\<close>.\<close>

definition handleChatMessage_begin ::
  "number \<Rightarrow> jsstring \<Rightarrow> WritingCoachPlugin \<Rightarrow> WritingCoachPlugin \<times> Request option" where
  "handleChatMessage_begin now message p =
     (case coachingView p of
        None \<Rightarrow> (p, None)
      | Some v \<Rightarrow>
          let v1 = addChatMessage \<lparr>role = User, content = message, message_timestamp = now\<rparr> v;
              system =
                (case map_of (triggers (configRules p)) (js ''stuck'') of
                   None \<Rightarrow> []
                 | Some stuckRule \<Rightarrow> systemPrompt stuckRule);
              (c1, aw) = continueConversation_begin now message system (claudeClient p)
          in case aw of
               Done response \<Rightarrow>
                 (p\<lparr>claudeClient := c1,
                    coachingView := Some (addChatMessage
                      \<lparr>role = Assistant, content = response, message_timestamp = now\<rparr> v1)\<rparr>,
                  None)
             | Waiting req \<Rightarrow> (p\<lparr>claudeClient := c1, coachingView := Some v1\<rparr>, Some req))"

definition handleChatMessage_resume ::
  "number \<Rightarrow> answer \<Rightarrow> WritingCoachPlugin \<Rightarrow> WritingCoachPlugin" where
  "handleChatMessage_resume now ans p =
     (let (c1, out) = continueConversation_resume now ans (claudeClient p);
          p1 = p\<lparr>claudeClient := c1\<rparr>
      in case out of
           Inr response \<Rightarrow>
             p1\<lparr>coachingView := map_option
                  (addChatMessage
                     \<lparr>role = Assistant, content = response, message_timestamp = now\<rparr>)
                  (coachingView p1)\<rparr>
         | Inl err \<Rightarrow> p1\<lparr>coachingView := map_option (showError err) (coachingView p1)\<rparr>)"

text \<open>The close button of an advice: \<open>hideCoaching\<close>, then the \<open>onDismiss\<close> of the plugin.\<close>

definition click_close :: "WritingCoachPlugin \<Rightarrow> WritingCoachPlugin" where
  "click_close p =
     p\<lparr>coachingView := map_option hideCoaching (coachingView p),
       claudeClient := resetConversation (claudeClient p)\<rparr>"

section \<open>The specification's notions\<close>

text \<open>
  The definitions of this section follow the words of the specification, not the code;
  the theorems below compare them with the code.
\<close>

subsection \<open>Word count\<close>

text \<open>
  The number of maximal runs of characters that are not separators; \<open>inside\<close> tells whether
  a run is open at the start of the string.
\<close>

fun count_runs :: "(jschar \<Rightarrow> bool) \<Rightarrow> bool \<Rightarrow> jsstring \<Rightarrow> nat" where
  "count_runs sep inside [] = (if inside then 1 else 0)"
| "count_runs sep inside (c # cs) =
     (if sep c then (if inside then 1 else 0) + count_runs sep False cs
      else count_runs sep True cs)"

text \<open>
  The tokens of a text that are not logographic: the maximal runs of characters that are
  neither white space nor logographic.
\<close>

definition spec_token_count :: "jsstring \<Rightarrow> nat" where
  "spec_token_count text = count_runs (\<lambda>c. is_ws c \<or> is_cjk c) False text"

definition spec_logographic_count :: "jsstring \<Rightarrow> nat" where
  "spec_logographic_count text = length (filter is_cjk text)"

text \<open>One word for each token and half a word for each logographic character, added up.\<close>

definition spec_word_count :: "jsstring \<Rightarrow> real" where
  "spec_word_count text =
     real (spec_token_count text) + 0.5 * real (spec_logographic_count text)"

subsection \<open>Trend\<close>

text \<open>
  Of the last five readings (all of them when there are fewer), the average of the first
  two and the average of the last two.
\<close>

definition spec_older_avg :: "number list \<Rightarrow> number" where
  "spec_older_avg values =
     (let n = length values; k = min n 5
      in (values ! (n - k) + values ! (n - k + 1)) / 2)"

definition spec_newer_avg :: "number list \<Rightarrow> number" where
  "spec_newer_avg values =
     (let n = length values in (values ! (n - 2) + values ! (n - 1)) / 2)"

subsection \<open>Speed\<close>

text \<open>
  An edit as the host makes it: its time, the position it starts at, the number of
  characters it removes there and the text it inserts there.
\<close>

type_synonym edit = "number \<times> nat \<times> nat \<times> jsstring"

definition apply_edit :: "jsstring \<Rightarrow> nat \<Rightarrow> nat \<Rightarrow> jsstring \<Rightarrow> jsstring" where
  "apply_edit doc pos k ins = take pos doc @ ins @ drop (pos + k) doc"

text \<open>An editor that shows the document \<open>doc\<close>, with the cursor at the start of an empty line.\<close>

definition host_editor :: "jsstring \<Rightarrow> Editor" where
  "host_editor doc =
     \<lparr>getValue = doc, cursor_ch = 0, cursor_line_text = [], next_line_text = None\<rparr>"

text \<open>The editor changes that a sequence of edits of the document \<open>doc\<close> brings about.\<close>

fun edit_changes :: "jsstring \<Rightarrow> edit list \<Rightarrow> (number \<times> Editor) list" where
  "edit_changes doc [] = []"
| "edit_changes doc ((t, pos, k, ins) # es) =
     (t, host_editor (apply_edit doc pos k ins)) # edit_changes (apply_edit doc pos k ins) es"



subsection \<open>Speed as the sensor sees it\<close>

text \<open>
  A run of the sensor: the editor changes in arrival order, each with the clock reading
  of its \<open>onEditorChange\<close>.
\<close>

definition run_edits ::
  "Revision \<Rightarrow> WritingSensor \<Rightarrow> (number \<times> Editor) list \<Rightarrow> WritingSensor" where
  "run_edits rv s changes = foldl (\<lambda>s (t, ed). onEditorChange rv t ed s) s changes"

text \<open>
  The deltas of a run that starts with the document \<open>prev\<close>: time, document before and
  document after.
\<close>

fun edit_deltas ::
  "jsstring \<Rightarrow> (number \<times> Editor) list \<Rightarrow> (number \<times> jsstring \<times> jsstring) list" where
  "edit_deltas prev [] = []"
| "edit_deltas prev ((t, ed) # rest) = (t, prev, getValue ed) # edit_deltas (getValue ed) rest"

text \<open>
  The tail of the new document beyond the length of the old one, nothing when the
  document did not grow.
\<close>

definition appended_tail :: "jsstring \<Rightarrow> jsstring \<Rightarrow> jsstring" where
  "appended_tail oldText newText = drop (length oldText) newText"

text \<open>
  The word counts of the tails of the trailing 60 seconds, a tail of more than 50
  characters left out.
\<close>

definition tail_wpm :: "number \<Rightarrow> (number \<times> jsstring \<times> jsstring) list \<Rightarrow> number" where
  "tail_wpm now deltas =
     sum_list (map (\<lambda>(t, old, new). countWords (appended_tail old new))
       (filter (\<lambda>(t, old, new). t > now - 60000 \<and> length (appended_tail old new) \<le> 50)
          deltas))"

text \<open>The same without the limit of 50 characters.\<close>

definition tail_wpm_all :: "number \<Rightarrow> (number \<times> jsstring \<times> jsstring) list \<Rightarrow> number" where
  "tail_wpm_all now deltas =
     sum_list (map (\<lambda>(t, old, new). countWords (appended_tail old new))
       (filter (\<lambda>(t, old, new). t > now - 60000) deltas))"

subsection \<open>Lexical ratios\<close>

text \<open>The matched tokens over all tokens, 0 when there is no token.\<close>

definition spec_ratio :: "(jsstring \<Rightarrow> bool) \<Rightarrow> jsstring list \<Rightarrow> number" where
  "spec_ratio matches tokens =
     (if length tokens = 0 then 0
      else real (length (filter matches tokens)) / real (length tokens))"

subsection \<open>Conditions\<close>

definition trend_keywords :: "jsstring list" where
  "trend_keywords = [js ''increasing'', js ''decreasing'', js ''stable'']"

definition location_keywords :: "jsstring list" where
  "location_keywords =
     [js ''start'', js ''mid-sentence'', js ''end-sentence'', js ''end-paragraph'']"

definition boolean_literals :: "jsstring list" where
  "boolean_literals = [js ''true'', js ''false'']"

text \<open>A number: a minus sign if any, digits, and a fraction if any.\<close>

definition spec_number_text :: "jsstring \<Rightarrow> bool" where
  "spec_number_text t =
     (let u = (case t of [] \<Rightarrow> [] | c # r \<Rightarrow> if c = 0x002D then r else t);
          ds = takeWhile is_digit u;
          rest = dropWhile is_digit u
      in length ds > 0 \<and>
         (case rest of [] \<Rightarrow> True | c # r \<Rightarrow> c = 0x002E \<and> list_all is_digit r))"

text \<open>One of the operators \<open>>=\<close>, \<open><=\<close>, \<open>>\<close>, \<open><\<close>, \<open>=\<close> at the head of the condition; what follows it.\<close>

definition spec_strip_operator :: "jsstring \<Rightarrow> jsstring option" where
  "spec_strip_operator c =
     (if startsWith c (js ''>='') \<or> startsWith c (js ''<='') then Some (drop 2 c)
      else if startsWith c (js ''>'') \<or> startsWith c (js ''<'') \<or> startsWith c (js ''='')
        then Some (drop 1 c)
      else None)"

text \<open>The relational form: an operator followed by a number, white space allowed between.\<close>

definition spec_numeric_form :: "jsstring \<Rightarrow> bool" where
  "spec_numeric_form c =
     (case spec_strip_operator c of
        None \<Rightarrow> False
      | Some r \<Rightarrow> spec_number_text (dropWhile is_ws r))"

definition spec_grammar :: "jsstring \<Rightarrow> bool" where
  "spec_grammar c \<longleftrightarrow>
     spec_numeric_form c \<or> c \<in> set trend_keywords \<or> c \<in> set location_keywords \<or>
     c \<in> set boolean_literals"

definition is_number :: "jsvalue \<Rightarrow> bool" where
  "is_number v = (case v of JNumber n \<Rightarrow> True | _ \<Rightarrow> False)"

definition is_string :: "jsvalue \<Rightarrow> bool" where
  "is_string v = (case v of JString s \<Rightarrow> True | _ \<Rightarrow> False)"

definition is_boolean :: "jsvalue \<Rightarrow> bool" where
  "is_boolean v = (case v of JBoolean b \<Rightarrow> True | _ \<Rightarrow> False)"

text \<open>
  The type of the value does not fit the condition: a relational condition wants a number,
  a key word a string, a boolean literal a boolean.
\<close>

definition spec_type_mismatch :: "jsvalue \<Rightarrow> jsstring \<Rightarrow> bool" where
  "spec_type_mismatch v c \<longleftrightarrow>
     (spec_numeric_form c \<and> \<not> is_number v) \<or>
     ((c \<in> set trend_keywords \<or> c \<in> set location_keywords) \<and> \<not> is_string v) \<or>
     (c \<in> set boolean_literals \<and> \<not> is_boolean v)"

subsection \<open>Cooldown\<close>

text \<open>
  The cooldown that the configuration gives a rule, in milliseconds: the global minimum
  interval, and for a rule of high priority the override, with its default of 180 seconds
  when the override is not set or is 0.
\<close>

definition spec_cooldown :: "TriggerRules \<Rightarrow> TriggerRule \<Rightarrow> number" where
  "spec_cooldown rs rule =
     (if priority rule = High
      then (case priorityOverride (globalSettings rs) of
              None \<Rightarrow> 180
            | Some high \<Rightarrow> if high = 0 then 180 else high)
      else minimumIntervalBetweenTriggers (globalSettings rs)) * 1000"

text \<open>The cooldown that dev mode puts in its place.\<close>

definition dev_cooldown :: "TriggerRule \<Rightarrow> number" where
  "dev_cooldown rule = (if priority rule = High then 30000 else 60000)"

text \<open>
  A run of the scheduler: the ticks in order, each with its clock reading, the metrics, the
  writing type and the context; the result is the fires, each with its time.
\<close>

fun run_ticks ::
  "TriggerEngine \<Rightarrow> (number \<times> WritingMetrics \<times> jsstring \<times> WritingContext) list \<Rightarrow>
   (number \<times> TriggerResult) list" where
  "run_ticks e [] = []"
| "run_ticks e ((now, m, wt, ctx) # rest) =
     (let out = checkTriggers now m wt ctx e
      in (case returned out of None \<Rightarrow> [] | Some r \<Rightarrow> [(now, r)]) @
         run_ticks (engine out) rest)"

subsection \<open>Auxiliary notions for the scheduler\<close>

text \<open>The interval that \<open>checkTriggers\<close> requires of a rule: \<open>requiredInterval\<close>.\<close>

definition effective_cooldown :: "TriggerEngine \<Rightarrow> TriggerRule \<Rightarrow> number" where
  "effective_cooldown e rule =
     (if priority rule = High then highPriorityInterval e else minInterval e)"

text \<open>
  What a tick does when the rule \<open>name\<close> fires: the last-fire time and the history are
  written, then the listener is called, and the result is returned.
\<close>

definition fire :: "number \<Rightarrow> WritingMetrics \<Rightarrow> jsstring \<Rightarrow> WritingContext \<Rightarrow> TriggerEngine \<Rightarrow>
   jsstring \<Rightarrow> TriggerRule \<Rightarrow> Outcome" where
  "fire now m wt ctx e name rule =
     (let e3 = e\<lparr>lastTriggerTime := now,
                  triggerHistory := slice_last 100 (triggerHistory e @
                    [\<lparr>event_name = name, event_timestamp = now, event_metrics = m,
                      event_writingType = wt\<rparr>])\<rparr>;
          result = \<lparr>triggerName = name, result_rule = rule, result_metrics = m,
                    result_context = ctx\<rparr>
      in \<lparr>engine = e3, returned = Some result,
          notified = (if hasOnTrigger e then [(e3, result)] else [])\<rparr>)"

subsection \<open>Sample inputs\<close>

text \<open>Metrics under which the default rule \<open>rushing\<close>, or the default rule \<open>stuck\<close>, holds.\<close>

definition rushing_metrics :: WritingMetrics where
  "rushing_metrics = getDefaultMetrics\<lparr>wpm := 45, adjectiveRatio := 0.02, sessionDuration := 130\<rparr>"

definition stuck_metrics :: WritingMetrics where
  "stuck_metrics = getDefaultMetrics\<lparr>pauseDuration := 200, currentParagraphLength := 10\<rparr>"

definition scene_context :: WritingContext where
  "scene_context = \<lparr>writingType = js ''scene'', recentContent = [], currentFile = js ''draft.md''\<rparr>"

definition rushing_result :: TriggerResult where
  "rushing_result = \<lparr>triggerName = js ''rushing'', result_rule = rushing_rule,
     result_metrics = rushing_metrics, result_context = scene_context\<rparr>"

definition stuck_result :: TriggerResult where
  "stuck_result = \<lparr>triggerName = js ''stuck'', result_rule = stuck_rule,
     result_metrics = stuck_metrics, result_context = scene_context\<rparr>"

definition default_engine :: TriggerEngine where
  "default_engine = setOnTrigger (new_TriggerEngine getDefaultTriggerRules)"

definition dev_engine :: TriggerEngine where
  "dev_engine = setDevMode True (setOnTrigger (new_TriggerEngine getDefaultTriggerRules))"

definition blocked_engine :: TriggerEngine where
  "blocked_engine =
     pause (engine (checkTriggers 1000000 stuck_metrics (js ''memory'') scene_context
       default_engine))"

text \<open>Externals without a segmenter and without Chinese word sets; \<open>toLowerCase\<close> as on lower-case ASCII.\<close>

definition witness_externals :: Externals where
  "witness_externals =
     \<lparr>toLowerCase = (\<lambda>s. s), doSegment = (\<lambda>s. None), CHINESE_ADJECTIVES = {},
      CHINESE_ABSTRACT_NOUNS = {}, CHINESE_VERBS = {}\<rparr>"

text \<open>
  Edits of a document that starts as \<open>hi\<close>: six characters typed at the end, sixty
  characters pasted at the end, and the sixty-six removed again.
\<close>

definition sample_edits :: "edit list" where
  "sample_edits =
     [(2000, 2, 0, js '' there''), (3000, 8, 0, replicate 60 0x0061), (4000, 2, 66, [])]"

text \<open>
  A sensor that loaded the document \<open>good\<close>, recomputed its metrics, saw the whole text
  deleted and recomputed again.
\<close>

definition cleared_sensor :: "Revision \<Rightarrow> WritingSensor" where
  "cleared_sensor rv =
     updateMetrics rv witness_externals 10000 10000 10000
       (onEditorChange rv 7000 (host_editor [])
          (updateMetrics rv witness_externals 5000 5000 5000
             (onEditorChange rv 1000 (host_editor (js ''good'')) (new_WritingSensor 0))))"

subsection \<open>Notions of the specification for the session\<close>

text \<open>
  The turn history of the session is the history of the client, which is what the backend
  is sent; an exchange is a user turn of it (the answer to it follows, or is awaited). The
  chat panel displays the messages of its history element while it is shown.
\<close>

definition turnHistory :: "WritingCoachPlugin \<Rightarrow> ConversationMessage list" where
  "turnHistory p = client_conversationHistory (claudeClient p)"

definition exchanges :: "WritingCoachPlugin \<Rightarrow> nat" where
  "exchanges p = length (filter (\<lambda>m. role m = User) (turnHistory p))"

definition displayed :: "WritingCoachPlugin \<Rightarrow> ConversationMessage list" where
  "displayed p =
     (case coachingView p of
        None \<Rightarrow> []
      | Some v \<Rightarrow> if chatShown v then (case chatRendered v of None \<Rightarrow> [] | Some ms \<Rightarrow> ms) else [])"

text \<open>The configured maximum turn count, when the configuration has conversation rules.\<close>

definition spec_max_turns :: "WritingCoachPlugin \<Rightarrow> number option" where
  "spec_max_turns p =
     map_option maxConversationLength (conversationRules (globalSettings (configRules p)))"

subsection \<open>Sample sessions\<close>

text \<open>A plugin with an API key, both default triggers enabled, and its view open.\<close>

definition sample_plugin :: "TriggerRules \<Rightarrow> WritingCoachPlugin" where
  "sample_plugin rs =
     open_view (new_plugin 0 rs (js ''sk-test'') [js ''rushing'', js ''stuck''] (js ''scene''))"

text \<open>A trigger result handled at \<open>t\<close> and answered by the backend at \<open>t + 1000\<close>.\<close>

definition trigger_round ::
  "number \<Rightarrow> TriggerResult \<Rightarrow> jsstring \<Rightarrow> WritingCoachPlugin \<Rightarrow> WritingCoachPlugin" where
  "trigger_round t res reply p =
     (case handleTrigger_begin (js ''system'') (js ''The writer has paused.'') t res p of
        (p1, None) \<Rightarrow> p1
      | (p1, Some (pending, req)) \<Rightarrow> handleTrigger_resume (t + 1000) pending (Inr reply) p1)"

text \<open>The rule \<open>stuck\<close> fired at 1000 and the backend answered at 2000.\<close>

definition conversing_session :: "TriggerRules \<Rightarrow> WritingCoachPlugin" where
  "conversing_session rs =
     trigger_round 1000 stuck_result (js ''Paused here for a bit.'') (sample_plugin rs)"

text \<open>One exchange of the chat: the user sends a message, the backend answers.\<close>

definition chat_round ::
  "number \<Rightarrow> jsstring \<Rightarrow> jsstring \<Rightarrow> WritingCoachPlugin \<Rightarrow> WritingCoachPlugin" where
  "chat_round t message reply p =
     (case handleChatMessage_begin t message p of
        (p1, None) \<Rightarrow> p1
      | (p1, Some req) \<Rightarrow> handleChatMessage_resume (t + 500) (Inr reply) p1)"

text \<open>The default rules with a maximum turn count of 3.\<close>

definition limited_rules :: TriggerRules where
  "limited_rules =
     getDefaultTriggerRules\<lparr>globalSettings := (globalSettings getDefaultTriggerRules)
       \<lparr>conversationRules := Some \<lparr>autoCloseOnWriting = True, maxConversationLength = 3\<rparr>\<rparr>\<rparr>"

text \<open>A conversation under these rules with four exchanges of the chat after its opening.\<close>

definition long_session :: WritingCoachPlugin where
  "long_session =
     chat_round 6000 (js ''d'') (js ''D'')
       (chat_round 5000 (js ''c'') (js ''C'')
          (chat_round 4000 (js ''b'') (js ''B'')
             (chat_round 3000 (js ''a'') (js ''A'') (conversing_session limited_rules))))"





section \<open>Word count: tokens, logographic characters and rounding\<close>

lemma count_runs_dropWhile: "count_runs sep False (dropWhile sep s) = count_runs sep False s"
  by (induction s) auto

lemma count_runs_append_seps:
  "\<forall>x\<in>set u. sep x \<Longrightarrow> count_runs sep b (s @ u) = count_runs sep b s"
proof (induction s arbitrary: b)
  case Nil
  then show ?case by (induction u arbitrary: b) auto
next
  case (Cons c s)
  then show ?case by simp
qed

lemma rev_dropWhile_rev_decomp:
  "s = rev (dropWhile sep (rev s)) @ rev (takeWhile sep (rev s))"
  by (metis rev_append rev_rev_ident takeWhile_dropWhile_id)

lemma count_runs_trim_right:
  "count_runs sep b (rev (dropWhile sep (rev s))) = count_runs sep b s"
proof -
  have "\<forall>x\<in>set (rev (takeWhile sep (rev s))). sep x"
    by (auto dest: set_takeWhileD)
  from count_runs_append_seps[OF this, of b "rev (dropWhile sep (rev s))"]
  show ?thesis using rev_dropWhile_rev_decomp[of s sep] by simp
qed

lemma count_runs_trim: "count_runs is_ws False (trim s) = count_runs is_ws False s"
  by (simp add: trim_def count_runs_trim_right count_runs_dropWhile)

lemma length_split_runs:
  "length (filter (\<lambda>w. w \<noteq> []) (split_runs sep cur s)) = count_runs sep (cur \<noteq> []) s"
  by (induction sep cur s rule: split_runs.induct) (auto simp: count_runs_dropWhile)

lemma cjk_not_ws: "is_cjk c \<Longrightarrow> \<not> is_ws c"
  unfolding is_cjk_def is_ws_def
  by (auto simp: word_le_def word_less_def)

lemma is_ws_space: "is_ws 0x0020"
  by (simp add: is_ws_def)

lemma is_ws_replaced: "is_ws (if is_cjk c then 0x0020 else c) \<longleftrightarrow> is_ws c \<or> is_cjk c"
  using cjk_not_ws[of c] is_ws_space by (cases "is_cjk c") simp_all

lemma count_runs_englishOnly:
  "count_runs is_ws b (englishOnly s) = count_runs (\<lambda>c. is_ws c \<or> is_cjk c) b s"
proof (induction s arbitrary: b)
  case Nil
  show ?case by (simp add: englishOnly_def)
next
  case (Cons c s)
  have e: "englishOnly (c # s) = (if is_cjk c then 0x0020 else c) # englishOnly s"
    by (simp add: englishOnly_def)
  show ?case unfolding e count_runs.simps is_ws_replaced Cons.IH ..
qed

lemma length_englishWords: "length (englishWords s) = spec_token_count s"
  by (simp add: englishWords_def split_ws_def length_split_runs count_runs_trim
      count_runs_englishOnly spec_token_count_def)

lemma count_runs_all_sep: "\<forall>x\<in>set s. sep x \<Longrightarrow> count_runs sep False s = 0"
  by (induction s) auto

lemma all_dropWhile_iff: "(\<forall>x\<in>set (dropWhile P s). P x) \<longleftrightarrow> (\<forall>x\<in>set s. P x)"
proof
  assume a: "\<forall>x\<in>set (dropWhile P s). P x"
  have "dropWhile P s = []"
  proof (rule ccontr)
    assume n: "dropWhile P s \<noteq> []"
    then have "\<not> P (hd (dropWhile P s))" by (rule hd_dropWhile)
    moreover have "hd (dropWhile P s) \<in> set (dropWhile P s)" using n by simp
    ultimately show False using a by blast
  qed
  then show "\<forall>x\<in>set s. P x" by simp
next
  assume "\<forall>x\<in>set s. P x"
  then show "\<forall>x\<in>set (dropWhile P s). P x" by (blast dest: set_dropWhileD)
qed

lemma trim_Nil_iff: "trim s = [] \<longleftrightarrow> (\<forall>x\<in>set s. is_ws x)"
  unfolding trim_def by (simp add: all_dropWhile_iff)

lemma Math_round_half: "Math_round (real n * 0.5 + real k) = real k + real ((n + 1) div 2)"
proof -
  have "real n * 0.5 + real k + 1 / 2 = real_of_int (int k) + real_of_int (int n + 1) / 2"
    by (simp add: field_simps)
  then have "\<lfloor>real n * 0.5 + real k + 1 / 2\<rfloor> = int k + (int n + 1) div 2"
    by (metis floor_add_int add.commute floor_divide_of_int_eq of_int_numeral)
  also have "\<dots> = int (k + (n + 1) div 2)" by (simp add: zdiv_int)
  finally show ?thesis unfolding Math_round_def by simp
qed

lemma Math_round_nonneg: "0 \<le> x \<Longrightarrow> 0 \<le> Math_round x"
  unfolding Math_round_def by simp

lemma countWords_nonneg: "0 \<le> countWords s"
  unfolding countWords_def Let_def
  by (auto intro!: Math_round_nonneg)

text \<open>
  Claim C8, as the code has it. \<open>countWords\<close> does add one word for each token that is
  not logographic and half a word for each logographic character, but it returns that sum
  rounded to the nearest integer, a half going up: with an odd number of logographic
  characters the result is half a word above the exact sum.
\<close>

theorem countWords_rounds_half_up:
  "countWords s = Math_round (spec_word_count s) \<and>
   countWords s = real (spec_token_count s) + real ((spec_logographic_count s + 1) div 2)"
proof (cases "s = [] \<or> length (trim s) = 0")
  case True
  then have ws: "\<forall>x\<in>set s. is_ws x" by (auto simp: trim_Nil_iff)
  then have "filter is_cjk s = []" by (auto simp: filter_empty_conv dest: cjk_not_ws)
  moreover have "count_runs (\<lambda>c. is_ws c \<or> is_cjk c) False s = 0"
    using ws by (intro count_runs_all_sep) auto
  ultimately show ?thesis using True
    by (simp add: countWords_def spec_word_count_def spec_token_count_def
        spec_logographic_count_def Math_round_def)
next
  case False
  have "countWords s =
      Math_round (real (spec_logographic_count s) * 0.5 + real (spec_token_count s))"
    using False
    by (simp add: countWords_def chineseChars_def spec_logographic_count_def
        length_englishWords)
  then show ?thesis
    using Math_round_half[of "spec_logographic_count s" "spec_token_count s"]
    by (simp add: spec_word_count_def add.commute mult.commute)
qed

text \<open>
  Claim C8 as stated fails on a single logographic character: the exact value is one half,
  \<open>countWords\<close> returns 1.
\<close>

theorem countWords_exact_counterexample:
  "countWords [0x4E2D] \<noteq> spec_word_count [0x4E2D]"
  by (simp add: countWords_def trim_def is_ws_def englishWords_def englishOnly_def is_cjk_def
      split_ws_def chineseChars_def Math_round_def spec_word_count_def spec_token_count_def
      spec_logographic_count_def)

section \<open>Trend of the speed readings\<close>

lemma take2_nth: "2 \<le> length xs \<Longrightarrow> take 2 xs = [xs ! 0, xs ! 1]"
  by (cases xs; cases "tl xs") auto

lemma drop_last2:
  assumes "2 \<le> length xs"
  shows "drop (length xs - 2) xs = [xs ! (length xs - 2), xs ! (length xs - 1)]"
proof -
  obtain ys b where 1: "xs = ys @ [b]" using assms by (cases xs rule: rev_cases) auto
  then obtain zs a where 2: "ys = zs @ [a]" using assms by (cases ys rule: rev_cases) auto
  show ?thesis unfolding 1 2 by (simp add: nth_append)
qed

lemma calculateTrend_diff:
  assumes "3 \<le> length values"
  shows "calculateTrend values =
    (let diff = spec_newer_avg values - spec_older_avg values
     in if diff > 5 then Increasing else if diff < - 5 then Decreasing else Stable)"
proof -
  define n where "n = length values"
  define k where "k = min n 5"
  define off where "off = n - k"
  define r where "r = slice_last 5 values"
  have r_drop: "r = drop off values"
    unfolding r_def slice_last_def off_def k_def n_def by (simp add: min_def)
  have k3: "3 \<le> k" and offk: "off + k = n"
    using assms unfolding k_def off_def n_def by (simp_all add: min_def)
  have lr: "length r = k" unfolding r_drop using offk n_def by simp
  have nth_r: "r ! i = values ! (off + i)" if "i < k" for i
    unfolding r_drop using that offk n_def by (simp add: nth_drop)
  have r2: "2 \<le> length r" using lr k3 by simp
  have "take 2 r = [values ! off, values ! (off + 1)]"
    using take2_nth[OF r2] nth_r[of 0] nth_r[of 1] k3 by simp
  then have first:
    "foldl (\<lambda>a b. a + b) 0 (take 2 r) = values ! (n - k) + values ! (n - k + 1)"
    unfolding off_def by simp
  have e2: "off + (k - 2) = n - 2" and e1: "off + (k - 1) = n - 1"
    using offk k3 by simp_all
  have "slice_last 2 r = [r ! (k - 2), r ! (k - 1)]"
    unfolding slice_last_def using drop_last2[OF r2] lr by simp
  then have "slice_last 2 r = [values ! (n - 2), values ! (n - 1)]"
    using nth_r[of "k - 2"] nth_r[of "k - 1"] k3 e1 e2 by simp
  then have last:
    "foldl (\<lambda>a b. a + b) 0 (slice_last 2 r) = values ! (n - 2) + values ! (n - 1)"
    by simp
  have "\<not> length values < 3" using assms by simp
  then show ?thesis
    unfolding calculateTrend_def spec_newer_avg_def spec_older_avg_def Let_def
    using first last unfolding r_def k_def n_def by simp
qed

text \<open>
  Claim C7. Fewer than three readings give \<open>Stable\<close>. With three or more, take the last
  five readings (all of them when there are fewer), the average of the first two of them
  and the average of the last two: the trend is \<open>Increasing\<close> exactly when the newer
  average exceeds the older by more than 5, \<open>Decreasing\<close> exactly when it is lower by
  more than 5, and \<open>Stable\<close> otherwise.
\<close>

theorem calculateTrend_spec:
  "(length values < 3 \<longrightarrow> calculateTrend values = Stable) \<and>
   (3 \<le> length values \<longrightarrow>
      (calculateTrend values = Increasing \<longleftrightarrow>
         spec_newer_avg values - spec_older_avg values > 5) \<and>
      (calculateTrend values = Decreasing \<longleftrightarrow>
         spec_newer_avg values - spec_older_avg values < - 5) \<and>
      (calculateTrend values = Stable \<longleftrightarrow>
         \<not> spec_newer_avg values - spec_older_avg values > 5 \<and>
         \<not> spec_newer_avg values - spec_older_avg values < - 5))"
proof (intro conjI impI)
  assume "length values < 3"
  then show "calculateTrend values = Stable" by (simp add: calculateTrend_def)
next
  assume a: "3 \<le> length values"
  show "calculateTrend values = Increasing \<longleftrightarrow>
      spec_newer_avg values - spec_older_avg values > 5"
    using calculateTrend_diff[OF a] by (auto simp: Let_def split: if_splits)
next
  assume a: "3 \<le> length values"
  show "calculateTrend values = Decreasing \<longleftrightarrow>
      spec_newer_avg values - spec_older_avg values < - 5"
    using calculateTrend_diff[OF a] by (auto simp: Let_def split: if_splits)
next
  assume a: "3 \<le> length values"
  show "calculateTrend values = Stable \<longleftrightarrow>
         \<not> spec_newer_avg values - spec_older_avg values > 5 \<and>
         \<not> spec_newer_avg values - spec_older_avg values < - 5"
    using calculateTrend_diff[OF a] by (auto simp: Let_def split: if_splits)
qed

theorem calculateTrend_spec_witness:
  "length [10, 12, 30, 31 :: number] \<ge> 3 \<and> calculateTrend [10, 12, 30, 31] = Increasing \<and>
   spec_newer_avg [10, 12, 30, 31] - spec_older_avg [10, 12, 30, 31] > 5 \<and>
   length [7 :: number] < 3 \<and> calculateTrend [7] = Stable"
  using calculateTrend_spec[of "[10, 12, 30, 31]"] calculateTrend_spec[of "[7]"]
  by (simp add: spec_newer_avg_def spec_older_avg_def)

section \<open>Speed: the words of the trailing minute\<close>

lemma foldl_add_sum: "foldl (\<lambda>sum e. sum + f e) a xs = a + sum_list (map f xs)"
  by (induction xs arbitrary: a) (auto simp: add.assoc)

lemma calculateWPM_sum:
  "calculateWPM now s =
     sum_list (map (\<lambda>e. countWords (added e))
       (filter (\<lambda>e. timestamp e > now - 60000) (editHistory s)))"
  by (simp add: calculateWPM_def foldl_add_sum)

lemma countWords_Nil: "countWords [] = 0"
  by (simp add: countWords_def)

lemma getAddedText_tail:
  "getAddedText Plain old new = appended_tail old new"
  "getAddedText PasteAware old new =
     (if length (appended_tail old new) \<le> 50 then appended_tail old new else [])"
  by (auto simp: appended_tail_def Let_def)

lemma updatePauseLocation_frame:
  "editHistory (updatePauseLocation ed s) = editHistory s"
  "lastText (updatePauseLocation ed s) = lastText s"
  "isFirstEdit (updatePauseLocation ed s) = isFirstEdit s"
  by (simp_all add: updatePauseLocation_def Let_def)

lemma window_prune:
  assumes "t \<le> now"
  shows "filter (\<lambda>e. timestamp e > now - 60000) (filter (\<lambda>e. timestamp e > t - 600000) xs) =
         filter (\<lambda>e. timestamp e > now - 60000) xs"
proof -
  have "\<And>e. timestamp e > now - 60000 \<Longrightarrow> timestamp e > t - 600000" using assms by simp
  then show ?thesis by (induction xs) auto
qed

lemma onEditorChange_history:
  assumes "\<not> isFirstEdit s"
  shows "editHistory (onEditorChange rv t ed s) =
      (if getAddedText rv (lastText s) (getValue ed) \<noteq> [] \<or>
          getRemovedText (lastText s) (getValue ed) \<noteq> []
       then filter (\<lambda>e. timestamp e > t - 600000)
              (editHistory s @
                 [\<lparr>timestamp = t, added = getAddedText rv (lastText s) (getValue ed),
                   removed = getRemovedText (lastText s) (getValue ed)\<rparr>])
       else editHistory s)"
  using assms by (simp add: onEditorChange_def Let_def updatePauseLocation_frame)

lemma onEditorChange_step:
  assumes "\<not> isFirstEdit s" "t \<le> now"
  shows "\<not> isFirstEdit (onEditorChange rv t ed s)"
    and "lastText (onEditorChange rv t ed s) = getValue ed"
    and "calculateWPM now (onEditorChange rv t ed s) =
           calculateWPM now s +
           (if t > now - 60000 then countWords (getAddedText rv (lastText s) (getValue ed)) else 0)"
proof -
  let ?a = "getAddedText rv (lastText s) (getValue ed)"
  let ?r = "getRemovedText (lastText s) (getValue ed)"
  let ?ev = "\<lparr>timestamp = t, added = ?a, removed = ?r\<rparr>"
  show "\<not> isFirstEdit (onEditorChange rv t ed s)"
    using assms(1) by (simp add: onEditorChange_def Let_def updatePauseLocation_frame)
  show "lastText (onEditorChange rv t ed s) = getValue ed"
    using assms(1) by (simp add: onEditorChange_def Let_def updatePauseLocation_frame)
  note hist = onEditorChange_history[OF assms(1), of rv t ed]
  show "calculateWPM now (onEditorChange rv t ed s) =
           calculateWPM now s + (if t > now - 60000 then countWords ?a else 0)"
  proof (cases "?a \<noteq> [] \<or> ?r \<noteq> []")
    case True
    then have h: "editHistory (onEditorChange rv t ed s) =
        filter (\<lambda>e. timestamp e > t - 600000) (editHistory s @ [?ev])"
      using hist by (simp only: if_True)
    have "filter (\<lambda>e. timestamp e > now - 60000) (editHistory (onEditorChange rv t ed s)) =
          filter (\<lambda>e. timestamp e > now - 60000) (editHistory s @ [?ev])"
      unfolding h by (rule window_prune[OF assms(2)])
    then show ?thesis
      unfolding calculateWPM_sum by simp
  next
    case False
    then have a: "?a = []" by simp
    have h: "editHistory (onEditorChange rv t ed s) = editHistory s"
      using hist False by (simp only: if_False)
    show ?thesis unfolding calculateWPM_sum h a countWords_Nil by simp
  qed
qed

lemma tail_contrib:
  "(if t > now - 60000 then countWords (getAddedText PasteAware old new) else 0) =
     tail_wpm now [(t, old, new)]"
  "(if t > now - 60000 then countWords (getAddedText Plain old new) else 0) =
     tail_wpm_all now [(t, old, new)]"
  by (simp_all add: tail_wpm_def tail_wpm_all_def getAddedText_tail countWords_Nil
      del: getAddedText.simps)


lemma tail_wpm_all_Cons: "tail_wpm_all now (d # ds) = tail_wpm_all now [d] + tail_wpm_all now ds"
  by (simp add: tail_wpm_all_def)

lemma run_edits_Cons:
  "run_edits rv s ((t, ed) # changes) = run_edits rv (onEditorChange rv t ed s) changes"
  by (simp add: run_edits_def)


lemma run_edits_wpm_plain:
  assumes "\<not> isFirstEdit s" "\<forall>(t, ed)\<in>set changes. t \<le> now"
  shows "calculateWPM now (run_edits Plain s changes) =
           calculateWPM now s + tail_wpm_all now (edit_deltas (lastText s) changes)"
  using assms
proof (induction changes arbitrary: s)
  case Nil
  then show ?case by (simp add: run_edits_def tail_wpm_all_def)
next
  case (Cons c changes)
  obtain t ed where c: "c = (t, ed)" by (cases c)
  have t: "t \<le> now" using Cons.prems(2) c by simp
  have rest: "\<forall>(t, ed)\<in>set changes. t \<le> now" using Cons.prems(2) by simp
  note st = onEditorChange_step[OF Cons.prems(1) t, of Plain ed]
  have d: "edit_deltas (lastText s) (c # changes) =
      (t, lastText s, getValue ed) # edit_deltas (getValue ed) changes"
    by (simp add: c)
  have "calculateWPM now (run_edits Plain (onEditorChange Plain t ed s) changes) =
      calculateWPM now (onEditorChange Plain t ed s) +
      tail_wpm_all now (edit_deltas (lastText (onEditorChange Plain t ed s)) changes)"
    by (rule Cons.IH[OF st(1) rest])
  also have "\<dots> = calculateWPM now s + tail_wpm_all now [(t, lastText s, getValue ed)] +
      tail_wpm_all now (edit_deltas (getValue ed) changes)"
    unfolding st(2) st(3) tail_contrib ..
  also have "\<dots> = calculateWPM now s + tail_wpm_all now (edit_deltas (lastText s) (c # changes))"
    unfolding d
    using tail_wpm_all_Cons[of now "(t, lastText s, getValue ed)"
        "edit_deltas (getValue ed) changes"]
    by linarith
  finally show ?case unfolding c run_edits_Cons .
qed


lemma tail_wpm_nonneg: "0 \<le> tail_wpm now deltas"
  unfolding tail_wpm_def
  by (rule sum_list_nonneg) (auto simp: countWords_nonneg)


lemma wpm_updateMetrics:
  "wpm (metrics (updateMetrics rv ext now nowW nowD s)) = calculateWPM nowW s"
  by (simp add: updateMetrics_def Let_def analyzeText_def)

lemma load_state:
  "\<not> isFirstEdit (onEditorChange rv t ed (new_WritingSensor t0))"
  "lastText (onEditorChange rv t ed (new_WritingSensor t0)) = getValue ed"
  "editHistory (onEditorChange rv t ed (new_WritingSensor t0)) = []"
  by (simp_all add: onEditorChange_def new_WritingSensor_def Let_def)

lemma appended_tail_append: "appended_tail old (old @ ins) = ins"
  by (simp add: appended_tail_def)







lemma fresh_run_plain:
  assumes "\<forall>(t, ed)\<in>set changes. t \<le> nowW"
  shows "wpm (metrics (updateMetrics Plain ext now nowW nowD
             (run_edits Plain (new_WritingSensor t0) ((t1, load) # changes)))) =
           tail_wpm_all nowW (edit_deltas (getValue load) changes)"
proof -
  let ?s1 = "onEditorChange Plain t1 load (new_WritingSensor t0)"
  have "calculateWPM nowW ?s1 = 0" by (simp add: calculateWPM_sum load_state)
  then have "calculateWPM nowW (run_edits Plain ?s1 changes) =
      tail_wpm_all nowW (edit_deltas (getValue load) changes)"
    using run_edits_wpm_plain[OF load_state(1) assms, of Plain t1 load t0]
    by (simp add: load_state)
  then show ?thesis unfolding run_edits_Cons wpm_updateMetrics .
qed


lemmas countWords_eval = js_def countWords_def trim_def is_ws_def englishWords_def
  englishOnly_def is_cjk_def split_ws_def chineseChars_def Math_round_def




text \<open>
  The earlier revision has no paste rule: on the sample edits the sixty pasted characters
  are counted as a word.
\<close>

lemma countWords_paste: "countWords (replicate 60 0x0061) = 1"
proof -
  have "replicate 60 (0x0061 :: jschar) = replicate 30 0x0061 @ replicate 30 0x0061"
    by (simp add: replicate_add[symmetric])
  have n: "\<not> is_ws (0x0061 :: jschar)" "\<not> is_cjk (0x0061 :: jschar)"
    by (simp_all add: is_ws_def is_cjk_def)
  have r: "count_runs (\<lambda>c. is_ws c \<or> is_cjk c) b (replicate n 0x0061) =
      (if b \<or> n > 0 then 1 else 0)" for b n
    using n by (induction n arbitrary: b) auto
  have t: "trim (replicate 60 0x0061) = replicate 60 0x0061"
    using n by (simp add: trim_def dropWhile_replicate)
  have "filter is_cjk (replicate 60 (0x0061 :: jschar)) = []"
    using n by simp
  then show ?thesis
    using t r[of False 60]
    by (simp add: countWords_def chineseChars_def length_englishWords spec_token_count_def
        Math_round_def)
qed

lemma plain_counts_paste:
  "wpm (metrics (updateMetrics Plain witness_externals 5000 5000 5000
     (run_edits Plain (new_WritingSensor 0)
        ((1000, host_editor (js ''hi'')) # edit_changes (js ''hi'') sample_edits)))) = 2"
proof -
  have t: "\<forall>(t, ed)\<in>set (edit_changes (js ''hi'') sample_edits). t \<le> 5000"
    by (simp add: sample_edits_def)
  have c: "countWords (js '' there'') = 1" "countWords [] = 0"
    by (simp_all add: countWords_eval)
  show ?thesis
    unfolding fresh_run_plain[OF t]
    by (simp add: sample_edits_def host_editor_def apply_edit_def tail_wpm_all_def
        appended_tail_def c[unfolded js_def, simplified] countWords_paste js_def)
qed

section \<open>The scheduler: one fire for each tick\<close>

lemma check_rules_None:
  "returned (check_rules now m wt ctx e rs) = None \<Longrightarrow>
   check_rules now m wt ctx e rs = \<lparr>engine = e, returned = None, notified = []\<rparr>"
  by (induction now m wt ctx e rs rule: check_rules.induct)
     (auto simp: Let_def split: if_splits)

lemma slice_last_short: "length xs \<le> n \<Longrightarrow> slice_last n xs = xs"
  by (simp add: slice_last_def)

lemma check_rules_head:
  "check_rules now m wt ctx e ((name, rule) # rest) =
     (if appliesToType rule wt \<and> evaluateConditions (conditions rule) m \<and>
         \<not> now - lastTriggerTime e < effective_cooldown e rule
      then fire now m wt ctx e name rule
      else check_rules now m wt ctx e rest)"
  by (auto simp: Let_def fire_def effective_cooldown_def slice_last_short slice_last_def)

lemma check_rules_Some:
  "returned (check_rules now m wt ctx e rs) = Some r \<Longrightarrow>
   (\<exists>pre post. rs = pre @ (triggerName r, result_rule r) # post \<and>
      (\<forall>post'. check_rules now m wt ctx e (pre @ (triggerName r, result_rule r) # post') =
          check_rules now m wt ctx e rs)) \<and>
   check_rules now m wt ctx e rs = fire now m wt ctx e (triggerName r) (result_rule r) \<and>
   result_metrics r = m \<and> result_context r = ctx \<and>
   now - lastTriggerTime e \<ge> effective_cooldown e (result_rule r)"
proof (induction rs)
  case Nil
  then show ?case by simp
next
  case (Cons x rest)
  obtain name rule where x: "x = (name, rule)" by (cases x)
  show ?case
  proof (cases "appliesToType rule wt \<and> evaluateConditions (conditions rule) m \<and>
                \<not> now - lastTriggerTime e < effective_cooldown e rule")
    case True
    have eq: "check_rules now m wt ctx e ((name, rule) # post) = fire now m wt ctx e name rule"
      for post
      unfolding check_rules_head using True by auto
    then have r: "r = \<lparr>triggerName = name, result_rule = rule, result_metrics = m,
                    result_context = ctx\<rparr>"
      using Cons.prems x by (simp add: fire_def Let_def)
    have nr: "triggerName r = name" "result_rule r = rule" "result_metrics r = m"
      "result_context r = ctx"
      using r by simp_all
    have "x # rest = [] @ (triggerName r, result_rule r) # rest \<and>
      (\<forall>post'. check_rules now m wt ctx e ([] @ (triggerName r, result_rule r) # post') =
          check_rules now m wt ctx e (x # rest))"
      unfolding nr x using eq by simp
    then have ex: "\<exists>pre post. x # rest = pre @ (triggerName r, result_rule r) # post \<and>
      (\<forall>post'. check_rules now m wt ctx e (pre @ (triggerName r, result_rule r) # post') =
          check_rules now m wt ctx e (x # rest))"
      by blast
    have "check_rules now m wt ctx e (x # rest) =
        fire now m wt ctx e (triggerName r) (result_rule r)"
      unfolding nr x by (rule eq)
    moreover have "now - lastTriggerTime e \<ge> effective_cooldown e (result_rule r)"
      unfolding nr using True by simp
    ultimately show ?thesis using ex nr by blast
  next
    case False
    have skip: "check_rules now m wt ctx e ((name, rule) # rs') = check_rules now m wt ctx e rs'"
      for rs'
      unfolding check_rules_head using False by auto
    have prem: "returned (check_rules now m wt ctx e rest) = Some r"
      using Cons.prems unfolding x skip .
    note ih = Cons.IH[OF prem]
    from ih obtain pre post where pp: "rest = pre @ (triggerName r, result_rule r) # post"
      and ind: "\<forall>post'. check_rules now m wt ctx e (pre @ (triggerName r, result_rule r) # post') =
          check_rules now m wt ctx e rest"
      by blast
    have "x # rest = (x # pre) @ (triggerName r, result_rule r) # post \<and>
      (\<forall>post'. check_rules now m wt ctx e ((x # pre) @ (triggerName r, result_rule r) # post') =
          check_rules now m wt ctx e (x # rest))"
      unfolding x using pp ind skip by simp
    then have ex: "\<exists>pre post. x # rest = pre @ (triggerName r, result_rule r) # post \<and>
      (\<forall>post'. check_rules now m wt ctx e (pre @ (triggerName r, result_rule r) # post') =
          check_rules now m wt ctx e (x # rest))"
      by blast
    have "check_rules now m wt ctx e (x # rest) =
        fire now m wt ctx e (triggerName r) (result_rule r)"
      unfolding x skip using ih by blast
    then show ?thesis using ex ih by blast
  qed
qed

lemma checkTriggers_None:
  "returned (checkTriggers now m wt ctx e) = None \<Longrightarrow>
   checkTriggers now m wt ctx e = \<lparr>engine = e, returned = None, notified = []\<rparr>"
  unfolding checkTriggers_def by (auto dest: check_rules_None)

lemma checkTriggers_Some:
  assumes "returned (checkTriggers now m wt ctx e) = Some r"
  shows "checkTriggers now m wt ctx e = fire now m wt ctx e (triggerName r) (result_rule r)"
    and "result_metrics r = m" and "result_context r = ctx"
    and "now - lastTriggerTime e \<ge> effective_cooldown e (result_rule r)"
    and "\<not> isPaused e"
    and "\<exists>pre post. triggers (rules e) = pre @ (triggerName r, result_rule r) # post \<and>
      (\<forall>post'. check_rules now m wt ctx e (pre @ (triggerName r, result_rule r) # post') =
          checkTriggers now m wt ctx e)"
proof -
  show np: "\<not> isPaused e" using assms by (auto simp: checkTriggers_def)
  then have c: "checkTriggers now m wt ctx e = check_rules now m wt ctx e (triggers (rules e))"
    by (simp add: checkTriggers_def)
  note cs = check_rules_Some[OF assms[unfolded c]]
  show "checkTriggers now m wt ctx e = fire now m wt ctx e (triggerName r) (result_rule r)"
    unfolding c using cs by blast
  show "result_metrics r = m" "result_context r = ctx"
    "now - lastTriggerTime e \<ge> effective_cooldown e (result_rule r)"
    using cs by blast+
  show "\<exists>pre post. triggers (rules e) = pre @ (triggerName r, result_rule r) # post \<and>
      (\<forall>post'. check_rules now m wt ctx e (pre @ (triggerName r, result_rule r) # post') =
          checkTriggers now m wt ctx e)"
    unfolding c using cs by blast
qed

lemma fire_fields:
  "lastTriggerTime (engine (fire now m wt ctx e name rule)) = now"
  "triggerHistory (engine (fire now m wt ctx e name rule)) =
     slice_last 100 (triggerHistory e @
        [\<lparr>event_name = name, event_timestamp = now, event_metrics = m,
          event_writingType = wt\<rparr>])"
  "rules (engine (fire now m wt ctx e name rule)) = rules e"
  "devMode (engine (fire now m wt ctx e name rule)) = devMode e"
  "isPaused (engine (fire now m wt ctx e name rule)) = isPaused e"
  "hasOnTrigger (engine (fire now m wt ctx e name rule)) = hasOnTrigger e"
  "returned (fire now m wt ctx e name rule) =
     Some \<lparr>triggerName = name, result_rule = rule, result_metrics = m, result_context = ctx\<rparr>"
  "notified (fire now m wt ctx e name rule) =
     (if hasOnTrigger e
      then [(engine (fire now m wt ctx e name rule),
             \<lparr>triggerName = name, result_rule = rule, result_metrics = m,
              result_context = ctx\<rparr>)]
      else [])"
  by (simp_all add: fire_def Let_def)

text \<open>Evaluation of the default rules on the sample inputs.\<close>

lemmas condition_eval = is_ws_def is_digit_def match_number_def match_here_def startsWith_def
  parseFloat_def parseFloat_value_def parse_exponent_def digits_value_def isNaN_def
  js_less_eq_def js_strict_eq_def evaluateCondition_def

lemma rushing_conditions: "evaluateConditions (conditions rushing_rule) rushing_metrics"
  by (simp add: rushing_rule_def rushing_metrics_def getDefaultMetrics_def metric_value_def
      js_def condition_eval)

lemma stuck_conditions_rushing: "\<not> evaluateConditions (conditions stuck_rule) rushing_metrics"
  by (simp add: stuck_rule_def rushing_metrics_def getDefaultMetrics_def metric_value_def
      js_def condition_eval)

lemma stuck_conditions: "evaluateConditions (conditions stuck_rule) stuck_metrics"
  by (simp add: stuck_rule_def stuck_metrics_def getDefaultMetrics_def metric_value_def
      js_def condition_eval)

lemma rushing_conditions_stuck: "\<not> evaluateConditions (conditions rushing_rule) stuck_metrics"
  by (simp add: rushing_rule_def stuck_metrics_def getDefaultMetrics_def metric_value_def
      js_def condition_eval)

lemma applies: "appliesToType rushing_rule (js ''scene'')" "appliesToType stuck_rule wt"
  by (simp_all add: appliesToType_def rushing_rule_def stuck_rule_def)

lemma prio: "priority rushing_rule = Medium" "priority stuck_rule = High"
  by (simp_all add: rushing_rule_def stuck_rule_def)

lemma default_tick_rushing:
  assumes "rules e = getDefaultTriggerRules" "\<not> isPaused e"
    "\<not> now - lastTriggerTime e < minInterval e"
  shows "checkTriggers now rushing_metrics (js ''scene'') scene_context e =
     fire now rushing_metrics (js ''scene'') scene_context e (js ''rushing'') rushing_rule"
  using assms rushing_conditions applies prio
  by (simp add: checkTriggers_def getDefaultTriggerRules_def check_rules_head
      effective_cooldown_def del: check_rules.simps)

lemma default_tick_stuck:
  assumes "rules e = getDefaultTriggerRules" "\<not> isPaused e"
    "\<not> now - lastTriggerTime e < highPriorityInterval e"
  shows "checkTriggers now stuck_metrics wt scene_context e =
     fire now stuck_metrics wt scene_context e (js ''stuck'') stuck_rule"
  using assms stuck_conditions rushing_conditions_stuck applies prio
  by (simp add: checkTriggers_def getDefaultTriggerRules_def check_rules_head
      effective_cooldown_def del: check_rules.simps)

lemma returned_fire: "returned (fire now m wt ctx e name rule) =
     Some \<lparr>triggerName = name, result_rule = rule, result_metrics = m, result_context = ctx\<rparr>"
  by (rule fire_fields)

text \<open>
  Claim C3. When a tick fires, the history after the call is the history before it with
  exactly one event added, that of the firing rule at the time of the tick (cut to its
  last 100 entries); the last-fire time is the time of the tick; the listener, when one is
  set, is called once, after both were written, so the engine it finds has them; the
  value returned is the one result of the firing rule; and the rules after the firing rule
  are not looked at: any other rules in their place give the same outcome. A tick that
  returns nothing leaves the engine as it was and calls no listener, so no tick fires more
  than one rule.
\<close>

theorem checkTriggers_fires_once:
  "(returned (checkTriggers now m wt ctx e) = Some r \<longrightarrow>
      triggerHistory (engine (checkTriggers now m wt ctx e)) =
        slice_last 100 (triggerHistory e @
          [\<lparr>event_name = triggerName r, event_timestamp = now, event_metrics = m,
            event_writingType = wt\<rparr>]) \<and>
      lastTriggerTime (engine (checkTriggers now m wt ctx e)) = now \<and>
      notified (checkTriggers now m wt ctx e) =
        (if hasOnTrigger e then [(engine (checkTriggers now m wt ctx e), r)] else []) \<and>
      r = \<lparr>triggerName = triggerName r, result_rule = result_rule r, result_metrics = m,
           result_context = ctx\<rparr> \<and>
      (\<exists>pre post. triggers (rules e) = pre @ (triggerName r, result_rule r) # post \<and>
         (\<forall>post'. check_rules now m wt ctx e (pre @ (triggerName r, result_rule r) # post') =
            checkTriggers now m wt ctx e))) \<and>
   (returned (checkTriggers now m wt ctx e) = None \<longrightarrow>
      engine (checkTriggers now m wt ctx e) = e \<and> notified (checkTriggers now m wt ctx e) = []) \<and>
   length (notified (checkTriggers now m wt ctx e)) \<le> 1"
proof (intro conjI impI)
  assume a: "returned (checkTriggers now m wt ctx e) = Some r"
  note cs = checkTriggers_Some[OF a]
  have r: "r = \<lparr>triggerName = triggerName r, result_rule = result_rule r, result_metrics = m,
           result_context = ctx\<rparr>"
    using cs(2,3) by simp
  show "triggerHistory (engine (checkTriggers now m wt ctx e)) =
        slice_last 100 (triggerHistory e @
          [\<lparr>event_name = triggerName r, event_timestamp = now, event_metrics = m,
            event_writingType = wt\<rparr>])"
    unfolding cs(1) by (rule fire_fields)
  show "lastTriggerTime (engine (checkTriggers now m wt ctx e)) = now"
    unfolding cs(1) by (rule fire_fields)
  show "notified (checkTriggers now m wt ctx e) =
        (if hasOnTrigger e then [(engine (checkTriggers now m wt ctx e), r)] else [])"
    unfolding cs(1) fire_fields(8) using r by simp
  show "r = \<lparr>triggerName = triggerName r, result_rule = result_rule r, result_metrics = m,
           result_context = ctx\<rparr>" by (rule r)
  show "\<exists>pre post. triggers (rules e) = pre @ (triggerName r, result_rule r) # post \<and>
         (\<forall>post'. check_rules now m wt ctx e (pre @ (triggerName r, result_rule r) # post') =
            checkTriggers now m wt ctx e)"
    by (rule cs(6))
next
  assume "returned (checkTriggers now m wt ctx e) = None"
  then show "engine (checkTriggers now m wt ctx e) = e" by (simp add: checkTriggers_None)
next
  assume "returned (checkTriggers now m wt ctx e) = None"
  then show "notified (checkTriggers now m wt ctx e) = []" by (simp add: checkTriggers_None)
next
  show "length (notified (checkTriggers now m wt ctx e)) \<le> 1"
  proof (cases "returned (checkTriggers now m wt ctx e)")
    case None
    then show ?thesis by (simp add: checkTriggers_None)
  next
    case (Some r)
    show ?thesis unfolding checkTriggers_Some(1)[OF Some] fire_fields(8) by simp
  qed
qed

theorem checkTriggers_fires_once_witness:
  "returned (checkTriggers 1000000 stuck_metrics (js ''memory'') scene_context default_engine) =
     Some stuck_result \<and>
   lastTriggerTime
     (engine (checkTriggers 1000000 stuck_metrics (js ''memory'') scene_context default_engine)) =
     1000000 \<and>
   length (triggerHistory
     (engine (checkTriggers 1000000 stuck_metrics (js ''memory'') scene_context default_engine))) =
     1 \<and>
   notified (checkTriggers 1000000 stuck_metrics (js ''memory'') scene_context default_engine) =
     [(engine (checkTriggers 1000000 stuck_metrics (js ''memory'') scene_context default_engine),
       stuck_result)]"
proof -
  have "checkTriggers 1000000 stuck_metrics (js ''memory'') scene_context default_engine =
     fire 1000000 stuck_metrics (js ''memory'') scene_context default_engine (js ''stuck'')
       stuck_rule"
    by (rule default_tick_stuck)
       (simp_all add: default_engine_def setOnTrigger_def new_TriggerEngine_def
         highPriorityInterval_def getDefaultTriggerRules_def)
  then have a: "returned (checkTriggers 1000000 stuck_metrics (js ''memory'') scene_context
      default_engine) = Some stuck_result"
    by (simp add: returned_fire stuck_result_def)
  have h: "hasOnTrigger default_engine" "triggerHistory default_engine = []"
    by (simp_all add: default_engine_def setOnTrigger_def new_TriggerEngine_def)
  show ?thesis
    using a h checkTriggers_fires_once[of 1000000 stuck_metrics "js ''memory''" scene_context
        default_engine stuck_result]
    by (simp add: slice_last_def)
qed

section \<open>The scheduler: cooldown\<close>

lemma effective_cooldown_cases:
  "(devMode e \<longrightarrow> effective_cooldown e rule = dev_cooldown rule) \<and>
   (\<not> devMode e \<longrightarrow> effective_cooldown e rule \<ge> spec_cooldown (rules e) rule)"
  by (auto simp: effective_cooldown_def dev_cooldown_def spec_cooldown_def minInterval_def
      highPriorityInterval_def split: option.splits)

lemma effective_cooldown_fire:
  "effective_cooldown (engine (fire now m wt ctx e name rule)) = effective_cooldown e"
  by (rule ext) (simp add: effective_cooldown_def minInterval_def highPriorityInterval_def
      fire_fields)

lemma run_ticks_step:
  "run_ticks e ((now, m, wt, ctx) # rest) =
     (case returned (checkTriggers now m wt ctx e) of
        None \<Rightarrow> run_ticks e rest
      | Some r \<Rightarrow> (now, r) #
          run_ticks (engine (fire now m wt ctx e (triggerName r) (result_rule r))) rest)"
proof (cases "returned (checkTriggers now m wt ctx e)")
  case None
  then show ?thesis by (simp add: checkTriggers_None)
next
  case (Some r)
  then show ?thesis using checkTriggers_Some(1)[OF Some] by simp
qed

lemma run_ticks_since_last:
  assumes "sorted (map fst ticks)" "\<forall>t\<in>set (map fst ticks). lastTriggerTime e \<le> t"
  shows "\<forall>(t, r)\<in>set (run_ticks e ticks).
           t - lastTriggerTime e \<ge> effective_cooldown e (result_rule r)"
  using assms
proof (induction ticks arbitrary: e)
  case Nil
  then show ?case by simp
next
  case (Cons tick rest)
  obtain now m wt ctx where tick: "tick = (now, m, wt, ctx)" by (cases tick)
  have srt: "sorted (map fst rest)" and le: "\<forall>t\<in>set (map fst rest). now \<le> t"
    and ge: "lastTriggerTime e \<le> now" and ge': "\<forall>t\<in>set (map fst rest). lastTriggerTime e \<le> t"
    using Cons.prems tick by auto
  show ?case
  proof (cases "returned (checkTriggers now m wt ctx e)")
    case None
    then have "run_ticks e (tick # rest) = run_ticks e rest"
      unfolding tick run_ticks_step by simp
    then show ?thesis using Cons.IH[OF srt ge'] by simp
  next
    case (Some r)
    let ?e' = "engine (fire now m wt ctx e (triggerName r) (result_rule r))"
    have rt: "run_ticks e (tick # rest) = (now, r) # run_ticks ?e' rest"
      unfolding tick run_ticks_step using Some by simp
    have l: "lastTriggerTime ?e' = now" by (rule fire_fields)
    have ih: "\<forall>(t, r)\<in>set (run_ticks ?e' rest).
           t - now \<ge> effective_cooldown e (result_rule r)"
      using Cons.IH[of ?e', OF srt] le unfolding l effective_cooldown_fire by simp
    have hd: "now - lastTriggerTime e \<ge> effective_cooldown e (result_rule r)"
      by (rule checkTriggers_Some(4)[OF Some])
    show ?thesis unfolding rt using hd ih ge by fastforce
  qed
qed

lemma run_ticks_pairwise:
  assumes "sorted (map fst ticks)"
  shows "sorted_wrt (\<lambda>f1 f2. fst f2 - fst f1 \<ge> effective_cooldown e (result_rule (snd f2)))
           (run_ticks e ticks)"
  using assms
proof (induction ticks arbitrary: e)
  case Nil
  then show ?case by simp
next
  case (Cons tick rest)
  obtain now m wt ctx where tick: "tick = (now, m, wt, ctx)" by (cases tick)
  have srt: "sorted (map fst rest)" and le: "\<forall>t\<in>set (map fst rest). now \<le> t"
    using Cons.prems tick by auto
  show ?case
  proof (cases "returned (checkTriggers now m wt ctx e)")
    case None
    then have "run_ticks e (tick # rest) = run_ticks e rest"
      unfolding tick run_ticks_step by simp
    then show ?thesis using Cons.IH[OF srt] by simp
  next
    case (Some r)
    let ?e' = "engine (fire now m wt ctx e (triggerName r) (result_rule r))"
    have rt: "run_ticks e (tick # rest) = (now, r) # run_ticks ?e' rest"
      unfolding tick run_ticks_step using Some by simp
    have l: "lastTriggerTime ?e' = now" by (rule fire_fields)
    have "\<forall>(t, r)\<in>set (run_ticks ?e' rest).
           t - now \<ge> effective_cooldown e (result_rule r)"
      using run_ticks_since_last[of rest ?e', OF srt] le unfolding l effective_cooldown_fire
      by simp
    then have a: "\<forall>f2\<in>set (run_ticks ?e' rest).
           fst f2 - now \<ge> effective_cooldown e (result_rule (snd f2))"
      by auto
    have b: "sorted_wrt (\<lambda>f1 f2. fst f2 - fst f1 \<ge> effective_cooldown e (result_rule (snd f2)))
           (run_ticks ?e' rest)"
      using Cons.IH[of ?e', OF srt] unfolding effective_cooldown_fire .
    show ?thesis unfolding rt using a b by simp
  qed
qed

lemma run_ticks_fire:
  assumes "checkTriggers now m wt ctx e = fire now m wt ctx e name rule"
  shows "run_ticks e ((now, m, wt, ctx) # rest) =
     (now, \<lparr>triggerName = name, result_rule = rule, result_metrics = m,
            result_context = ctx\<rparr>) #
     run_ticks (engine (fire now m wt ctx e name rule)) rest"
  unfolding run_ticks_step assms returned_fire by simp

text \<open>
  Claim C2, as the code has it. In a run of ticks whose clock readings do not decrease,
  any two fires are apart by at least the cooldown of the rule that fired later, whichever
  rule fired earlier. Outside dev mode that is at least the configured cooldown: the
  global minimum interval, and for a rule of high priority the override (180 seconds when
  it is absent or 0). In dev mode the configured values are not read: the cooldown is 60
  seconds, and 30 seconds for a rule of high priority.
\<close>

theorem fires_respect_cooldown:
  assumes "sorted (map fst ticks)" and "i < j" and "j < length (run_ticks e ticks)"
  shows "(\<not> devMode e \<longrightarrow>
            fst (run_ticks e ticks ! j) - fst (run_ticks e ticks ! i) \<ge>
              spec_cooldown (rules e) (result_rule (snd (run_ticks e ticks ! j)))) \<and>
         (devMode e \<longrightarrow>
            fst (run_ticks e ticks ! j) - fst (run_ticks e ticks ! i) \<ge>
              dev_cooldown (result_rule (snd (run_ticks e ticks ! j))))"
proof -
  have "fst (run_ticks e ticks ! j) - fst (run_ticks e ticks ! i) \<ge>
      effective_cooldown e (result_rule (snd (run_ticks e ticks ! j)))"
    using run_ticks_pairwise[OF assms(1), of e] assms(2,3)
    by (simp add: sorted_wrt_iff_nth_less)
  then show ?thesis
    using effective_cooldown_cases[of e "result_rule (snd (run_ticks e ticks ! j))"]
    by auto
qed

theorem fires_respect_cooldown_witness:
  "sorted (map fst [(1000000 :: number, rushing_metrics, js ''scene'', scene_context),
                    (1300000, rushing_metrics, js ''scene'', scene_context)]) \<and>
   (0 :: nat) < 1 \<and>
   1 < length (run_ticks default_engine
         [(1000000, rushing_metrics, js ''scene'', scene_context),
          (1300000, rushing_metrics, js ''scene'', scene_context)]) \<and>
   \<not> devMode default_engine \<and>
   (1300000 :: number) - 1000000 \<ge> spec_cooldown (rules default_engine) rushing_rule"
proof -
  let ?ticks = "[(1000000 :: number, rushing_metrics, js ''scene'', scene_context),
                 (1300000, rushing_metrics, js ''scene'', scene_context)]"
  let ?e1 = "engine (fire 1000000 rushing_metrics (js ''scene'') scene_context default_engine
     (js ''rushing'') rushing_rule)"
  have 1: "checkTriggers 1000000 rushing_metrics (js ''scene'') scene_context default_engine =
     fire 1000000 rushing_metrics (js ''scene'') scene_context default_engine (js ''rushing'') rushing_rule"
    by (rule default_tick_rushing)
       (simp_all add: default_engine_def setOnTrigger_def new_TriggerEngine_def
         minInterval_def getDefaultTriggerRules_def)
  have 2: "checkTriggers 1300000 rushing_metrics (js ''scene'') scene_context ?e1 =
     fire 1300000 rushing_metrics (js ''scene'') scene_context ?e1 (js ''rushing'') rushing_rule"
    by (rule default_tick_rushing)
       (simp_all add: fire_fields default_engine_def setOnTrigger_def
         new_TriggerEngine_def minInterval_def getDefaultTriggerRules_def)
  have run: "run_ticks default_engine ?ticks =
     [(1000000, rushing_result), (1300000, rushing_result)]"
    unfolding run_ticks_fire[OF 1] run_ticks_fire[OF 2]
    by (simp add: rushing_result_def)
  have s: "sorted (map fst ?ticks)" by simp
  have l: "1 < length (run_ticks default_engine ?ticks)" unfolding run by simp
  have d: "\<not> devMode default_engine"
    by (simp add: default_engine_def setOnTrigger_def new_TriggerEngine_def)
  show ?thesis
    using fires_respect_cooldown[OF s _ l, of 0] s l d unfolding run
    by (simp add: rushing_result_def)
qed

text \<open>
  Claim C2 as stated fails in dev mode: with the default rules (global cooldown 300
  seconds) the rule \<open>rushing\<close> fires twice, 60 seconds apart.
\<close>

theorem dev_mode_counterexample:
  "run_ticks dev_engine
      [(1000000, rushing_metrics, js ''scene'', scene_context),
       (1060000, rushing_metrics, js ''scene'', scene_context)] =
     [(1000000, rushing_result), (1060000, rushing_result)] \<and>
   (1060000 :: number) - 1000000 < spec_cooldown (rules dev_engine) (result_rule rushing_result)"
proof -
  let ?e1 = "engine (fire 1000000 rushing_metrics (js ''scene'') scene_context dev_engine
     (js ''rushing'') rushing_rule)"
  have 1: "checkTriggers 1000000 rushing_metrics (js ''scene'') scene_context dev_engine =
     fire 1000000 rushing_metrics (js ''scene'') scene_context dev_engine (js ''rushing'') rushing_rule"
    by (rule default_tick_rushing)
       (simp_all add: dev_engine_def setDevMode_def setOnTrigger_def new_TriggerEngine_def
         minInterval_def)
  have 2: "checkTriggers 1060000 rushing_metrics (js ''scene'') scene_context ?e1 =
     fire 1060000 rushing_metrics (js ''scene'') scene_context ?e1 (js ''rushing'') rushing_rule"
    by (rule default_tick_rushing)
       (simp_all add: fire_fields dev_engine_def setDevMode_def setOnTrigger_def
         new_TriggerEngine_def minInterval_def)
  have "run_ticks dev_engine
      [(1000000, rushing_metrics, js ''scene'', scene_context),
       (1060000, rushing_metrics, js ''scene'', scene_context)] =
     [(1000000, rushing_result), (1060000, rushing_result)]"
    unfolding run_ticks_fire[OF 1] run_ticks_fire[OF 2]
    by (simp add: rushing_result_def)
  moreover have "(1060000 :: number) - 1000000 <
      spec_cooldown (rules dev_engine) (result_rule rushing_result)"
    by (simp add: spec_cooldown_def dev_engine_def setDevMode_def setOnTrigger_def
        new_TriggerEngine_def getDefaultTriggerRules_def rushing_result_def prio)
  ultimately show ?thesis by simp
qed

section \<open>Forced fires\<close>

text \<open>
  Claim C10. For the name of a rule of the engine, \<open>forceTrigger\<close> returns the result of
  that rule and leaves the engine as it was: the last-fire time and the history are
  unchanged, whatever the pause flag and the time since the last fire are, and every later
  tick and run of ticks goes as it would have gone without the forced fire.
\<close>

theorem forceTrigger_frame:
  assumes "map_of (triggers (rules e)) name = Some rule"
  shows "returned (forceTrigger name m ctx e) =
           Some \<lparr>triggerName = name, result_rule = rule, result_metrics = m,
                 result_context = ctx\<rparr> \<and>
         engine (forceTrigger name m ctx e) = e \<and>
         lastTriggerTime (engine (forceTrigger name m ctx e)) = lastTriggerTime e \<and>
         triggerHistory (engine (forceTrigger name m ctx e)) = triggerHistory e \<and>
         notified (forceTrigger name m ctx e) =
           (if hasOnTrigger e
            then [(e, \<lparr>triggerName = name, result_rule = rule, result_metrics = m,
                      result_context = ctx\<rparr>)]
            else []) \<and>
         checkTriggers now' m' wt' ctx' (engine (forceTrigger name m ctx e)) =
           checkTriggers now' m' wt' ctx' e \<and>
         run_ticks (engine (forceTrigger name m ctx e)) ticks = run_ticks e ticks"
proof -
  have e: "engine (forceTrigger name m ctx e) = e"
    using assms by (simp add: forceTrigger_def Let_def)
  show ?thesis unfolding e using assms by (simp add: forceTrigger_def Let_def)
qed

theorem forceTrigger_frame_witness:
  "map_of (triggers (rules blocked_engine)) (js ''stuck'') = Some stuck_rule \<and>
   isPaused blocked_engine \<and>
   lastTriggerTime blocked_engine = 1000000 \<and>
   returned (checkTriggers 1000001 stuck_metrics (js ''memory'') scene_context blocked_engine) =
     None \<and>
   returned (forceTrigger (js ''stuck'') stuck_metrics scene_context blocked_engine) =
     Some stuck_result \<and>
   engine (forceTrigger (js ''stuck'') stuck_metrics scene_context blocked_engine) =
     blocked_engine"
proof -
  have f: "checkTriggers 1000000 stuck_metrics (js ''memory'') scene_context default_engine =
     fire 1000000 stuck_metrics (js ''memory'') scene_context default_engine (js ''stuck'')
       stuck_rule"
    by (rule default_tick_stuck)
       (simp_all add: default_engine_def setOnTrigger_def new_TriggerEngine_def
         highPriorityInterval_def getDefaultTriggerRules_def)
  have r: "rules blocked_engine = getDefaultTriggerRules"
    and p: "isPaused blocked_engine" and l: "lastTriggerTime blocked_engine = 1000000"
    unfolding blocked_engine_def f
    by (simp_all add: pause_def fire_fields default_engine_def setOnTrigger_def
        new_TriggerEngine_def)
  have m: "map_of (triggers (rules blocked_engine)) (js ''stuck'') = Some stuck_rule"
    unfolding r by (simp add: getDefaultTriggerRules_def js_def)
  have c: "returned (checkTriggers 1000001 stuck_metrics (js ''memory'') scene_context
      blocked_engine) = None"
    using p by (simp add: checkTriggers_def)
  show ?thesis
    using m p l c forceTrigger_frame[OF m, of stuck_metrics scene_context]
    by (simp add: stuck_result_def)
qed

section \<open>Conditions: what evaluates to false\<close>













lemma gt40_relational: "spec_numeric_form (js ''> 40'')"
  by (simp add: js_def spec_numeric_form_def spec_strip_operator_def startsWith_def
      spec_number_text_def is_ws_def is_digit_def)










text \<open>
  So is a list of numbers, by its first element, which a condition on the key \<open>recentWPM\<close>
  meets; and a string outside the grammar in which a comparison occurs is evaluated as
  that comparison.
\<close>

lemma evaluateCondition_list_value:
  "spec_type_mismatch (JArray [Num 50]) (js ''> 40'') \<and>
   evaluateCondition (JArray [Num 50]) (js ''> 40'')"
proof -
  have "spec_type_mismatch (JArray [Num 50]) (js ''> 40'')"
    unfolding spec_type_mismatch_def using gt40_relational by (simp add: is_number_def)
  moreover have "evaluateCondition (JArray [Num 50]) (js ''> 40'')"
    by (simp add: js_def condition_eval)
  ultimately show ?thesis by simp
qed

lemma embedded_not_relational: "\<not> spec_numeric_form (js ''wpm=1x'')"
  by (simp add: js_def spec_numeric_form_def spec_strip_operator_def startsWith_def)

lemma embedded_outside_grammar: "\<not> spec_grammar (js ''wpm=1x'')"
  unfolding spec_grammar_def
  using embedded_not_relational by (simp add: trend_keywords_def location_keywords_def boolean_literals_def js_def)

lemma embedded_comparison_evaluated: "evaluateCondition (JNumber (Num 1)) (js ''wpm=1x'')"
  by (simp add: js_def condition_eval)

lemma recentWPM_condition_met: "evaluateConditions [(js ''recentWPM'', js ''> 40'')] (getDefaultMetrics\<lparr>recentWPM := [50]\<rparr>)"
  by (simp add: js_def condition_eval metric_value_def getDefaultMetrics_def)

section \<open>Lexical ratios\<close>

lemma analyzeText_ratios:
  "adjectiveRatio (analyzeText rv ext doc m) =
     spec_ratio (isAdjective rv ext) (analysis_words rv ext doc)"
  "verbRatio (analyzeText rv ext doc m) =
     spec_ratio (isVerb rv ext) (analysis_words rv ext doc)"
  "abstractNounRatio (analyzeText rv ext doc m) =
     spec_ratio (isAbstractNoun rv ext) (analysis_words rv ext doc)"
  by (simp_all add: analyzeText_def spec_ratio_def Let_def)

lemma updateMetrics_ratios_text:
  assumes "lastText s \<noteq> []"
  shows "adjectiveRatio (metrics (updateMetrics rv ext now nowW nowD s)) =
           spec_ratio (isAdjective rv ext) (analysis_words rv ext (lastText s))"
    and "verbRatio (metrics (updateMetrics rv ext now nowW nowD s)) =
           spec_ratio (isVerb rv ext) (analysis_words rv ext (lastText s))"
    and "abstractNounRatio (metrics (updateMetrics rv ext now nowW nowD s)) =
           spec_ratio (isAbstractNoun rv ext) (analysis_words rv ext (lastText s))"
  using assms by (simp_all add: updateMetrics_def Let_def analyzeText_ratios)

lemma updateMetrics_ratios_empty:
  assumes "lastText s = []"
  shows "adjectiveRatio (metrics (updateMetrics rv ext now nowW nowD s)) =
           adjectiveRatio (metrics s)"
    and "verbRatio (metrics (updateMetrics rv ext now nowW nowD s)) = verbRatio (metrics s)"
    and "abstractNounRatio (metrics (updateMetrics rv ext now nowW nowD s)) =
           abstractNounRatio (metrics s)"
  using assms by (simp_all add: updateMetrics_def Let_def)

lemma updateMetrics_frame:
  "lastText (updateMetrics rv ext now nowW nowD s) = lastText s"
  "isFirstEdit (updateMetrics rv ext now nowW nowD s) = isFirstEdit s"
  "totalWords (metrics (updateMetrics rv ext now nowW nowD s)) = countWords (lastText s)"
  by (simp_all add: updateMetrics_def Let_def)

lemma good_words: "analysis_words rv witness_externals (js ''good'') = [js ''good'']"
  by (cases rv)
     (simp_all add: simple_words_def segmentText_def witness_externals_def split_ws_def js_def
       is_ws_def is_cjk_def)

lemma good_is_adjective: "isAdjective rv ext (js ''good'')"
  by (cases rv) (simp_all add: COMMON_ADJECTIVES_def)

lemma empty_words: "analysis_words rv witness_externals [] = []"
  by (cases rv)
     (simp_all add: simple_words_def segmentText_def witness_externals_def split_ws_def)

text \<open>
  Claim C9. While the document is not the empty string, a recomputation sets each of the
  three ratios to the matched tokens of the document over all its tokens, and to 0 when it
  has no token (\<open>updateMetrics_ratios_text\<close>). \<open>updateMetrics\<close> calls \<open>analyzeText\<close> only when
  the document is not the empty string, so for the empty document the branch of
  \<open>analyzeText\<close> that sets the ratios to 0 is not reached and the ratios keep the values of
  the last analysis (\<open>updateMetrics_ratios_empty\<close>). Evaluated here in both revisions: after
  the document \<open>good\<close> is cleared, the document has no token, the word total is 0 and the
  adjective ratio is still 1.
\<close>

theorem stale_ratio_after_clearing:
  "lastText (cleared_sensor Plain) = [] \<and>
   length (analysis_words Plain witness_externals (lastText (cleared_sensor Plain))) = 0 \<and>
   totalWords (metrics (cleared_sensor Plain)) = 0 \<and>
   adjectiveRatio (metrics (cleared_sensor Plain)) = 1 \<and>
   lastText (cleared_sensor PasteAware) = [] \<and>
   length (analysis_words PasteAware witness_externals (lastText (cleared_sensor PasteAware))) = 0 \<and>
   totalWords (metrics (cleared_sensor PasteAware)) = 0 \<and>
   adjectiveRatio (metrics (cleared_sensor PasteAware)) = 1"
proof -
  have main: "lastText (cleared_sensor rv) = [] \<and>
      length (analysis_words rv witness_externals (lastText (cleared_sensor rv))) = 0 \<and>
      totalWords (metrics (cleared_sensor rv)) = 0 \<and>
      adjectiveRatio (metrics (cleared_sensor rv)) = 1" for rv
  proof -
    let ?s1 = "onEditorChange rv 1000 (host_editor (js ''good'')) (new_WritingSensor 0)"
    let ?s2 = "updateMetrics rv witness_externals 5000 5000 5000 ?s1"
    let ?s3 = "onEditorChange rv 7000 (host_editor []) ?s2"
    have l1: "lastText ?s1 = js ''good''" "\<not> isFirstEdit ?s1"
      by (simp_all add: onEditorChange_def new_WritingSensor_def host_editor_def Let_def)
    have ne: "lastText ?s1 \<noteq> []" unfolding l1 by (simp add: js_def)
    have r2: "adjectiveRatio (metrics ?s2) = 1"
      unfolding updateMetrics_ratios_text(1)[OF ne] l1
      by (simp add: good_words spec_ratio_def good_is_adjective)
    have f2: "\<not> isFirstEdit ?s2" by (simp add: updateMetrics_frame l1)
    have l3: "lastText ?s3 = []"
      using f2 by (simp add: onEditorChange_def host_editor_def Let_def updatePauseLocation_def)
    have r3: "adjectiveRatio (metrics ?s3) = 1"
      using f2 r2
      by (simp add: onEditorChange_def host_editor_def Let_def updatePauseLocation_def)
    have c: "cleared_sensor rv = updateMetrics rv witness_externals 10000 10000 10000 ?s3"
      by (simp add: cleared_sensor_def)
    show ?thesis
      unfolding c updateMetrics_frame updateMetrics_ratios_empty(1)[OF l3] l3 r3
      by (simp add: empty_words countWords_def)
  qed
  show ?thesis using main[of Plain] main[of PasteAware] by blast
qed

section \<open>The coaching session: closing on an edit, and the turn limit\<close>

subsection \<open>What the steps of the plugin change\<close>

lemma addChatMessage_frame:
  "isInConversation (addChatMessage m v) = isInConversation v"
  "chatShown (addChatMessage m v) = chatShown v"
  "opened (addChatMessage m v) = opened v"
  "view_conversationHistory (addChatMessage m v) = view_conversationHistory v @ [m]"
  by (simp_all add: addChatMessage_def Let_def split: option.splits)

lemma addChatMessage_rendered:
  "chatRendered (addChatMessage m v) =
     map_option (\<lambda>shown. view_conversationHistory v @ [m]) (chatRendered v)"
  by (simp add: addChatMessage_def Let_def split: option.splits)

lemma showError_frame:
  "isInConversation (showError e v) = isInConversation v"
  "chatShown (showError e v) = chatShown v"
  "view_conversationHistory (showError e v) = view_conversationHistory v"
  by (simp_all add: showError_def)



lemma handleChatMessage_resume_view:
  "coachingView (handleChatMessage_resume t ans p) =
     map_option (case ans of
                   Inr response \<Rightarrow> addChatMessage
                     \<lparr>role = Assistant, content = response, message_timestamp = t\<rparr>
                 | Inl err \<Rightarrow> showError err) (coachingView p)"
  by (simp add: handleChatMessage_resume_def continueConversation_resume_def split: sum.splits)

lemma handleChatMessage_resume_client:
  "claudeClient (handleChatMessage_resume t ans p) =
     (case ans of
        Inr response \<Rightarrow> (claudeClient p)\<lparr>client_conversationHistory :=
          client_conversationHistory (claudeClient p) @
            [\<lparr>role = Assistant, content = response, message_timestamp = t\<rparr>]\<rparr>
      | Inl err \<Rightarrow> claudeClient p)"
  by (simp add: handleChatMessage_resume_def continueConversation_resume_def split: sum.splits)

lemma handleChatMessage_resume_frame:
  "enabledTriggers (handleChatMessage_resume t ans p) = enabledTriggers p"
  "configRules (handleChatMessage_resume t ans p) = configRules p"
  "lastContent (handleChatMessage_resume t ans p) = lastContent p"
  by (simp_all add: handleChatMessage_resume_def continueConversation_resume_def
      split: sum.splits)

lemma handleChatMessage_resume_conversing:
  "conversing (handleChatMessage_resume t ans p) = conversing p"
  by (cases "coachingView p"; cases ans)
     (simp_all add: conversing_def handleChatMessage_resume_view addChatMessage_frame
        showError_frame)

text \<open>A message sent with an API key set: the user turn is recorded and a request goes out.\<close>

lemma handleChatMessage_begin_sends:
  assumes "coachingView p = Some v" "apiKey (claudeClient p) \<noteq> []"
  shows "\<exists>req. handleChatMessage_begin t m p =
           (p\<lparr>claudeClient := (claudeClient p)\<lparr>client_conversationHistory :=
                 client_conversationHistory (claudeClient p) @
                   [\<lparr>role = User, content = m, message_timestamp = t\<rparr>]\<rparr>,
               coachingView := Some (addChatMessage
                 \<lparr>role = User, content = m, message_timestamp = t\<rparr> v)\<rparr>,
            Some req)"
  using assms
  by (simp add: handleChatMessage_begin_def continueConversation_begin_def hasApiKey_def
      Let_def)

lemma chat_round_eq:
  assumes "coachingView p = Some v" "apiKey (claudeClient p) \<noteq> []"
  shows "chat_round t m r p =
     handleChatMessage_resume (t + 500) (Inr r)
       (p\<lparr>claudeClient := (claudeClient p)\<lparr>client_conversationHistory :=
             client_conversationHistory (claudeClient p) @
               [\<lparr>role = User, content = m, message_timestamp = t\<rparr>]\<rparr>,
           coachingView := Some (addChatMessage
             \<lparr>role = User, content = m, message_timestamp = t\<rparr> v)\<rparr>)"
proof -
  from handleChatMessage_begin_sends[OF assms, of t m] obtain req where
    "handleChatMessage_begin t m p =
           (p\<lparr>claudeClient := (claudeClient p)\<lparr>client_conversationHistory :=
                 client_conversationHistory (claudeClient p) @
                   [\<lparr>role = User, content = m, message_timestamp = t\<rparr>]\<rparr>,
               coachingView := Some (addChatMessage
                 \<lparr>role = User, content = m, message_timestamp = t\<rparr> v)\<rparr>,
            Some req)" by blast
  then show ?thesis by (simp add: chat_round_def)
qed

text \<open>
  An exchange of the chat leaves the session in the conversation it is in, whatever the
  configuration says, and adds a user turn and an answer to the turn history.
\<close>

lemma chat_round_conversing:
  assumes "coachingView p = Some v" "apiKey (claudeClient p) \<noteq> []"
  shows "conversing (chat_round t m r p) = conversing p"
  by (simp add: chat_round_eq[OF assms] handleChatMessage_resume_conversing)
     (simp add: conversing_def assms addChatMessage_frame)

lemma chat_round_turnHistory:
  assumes "coachingView p = Some v" "apiKey (claudeClient p) \<noteq> []"
  shows "turnHistory (chat_round t m r p) =
           turnHistory p @ [\<lparr>role = User, content = m, message_timestamp = t\<rparr>,
                            \<lparr>role = Assistant, content = r, message_timestamp = t + 500\<rparr>]"
  by (simp add: chat_round_eq[OF assms] turnHistory_def handleChatMessage_resume_client)

lemma chat_round_frame:
  assumes "coachingView p = Some v" "apiKey (claudeClient p) \<noteq> []"
  shows "configRules (chat_round t m r p) = configRules p"
    and "apiKey (claudeClient (chat_round t m r p)) = apiKey (claudeClient p)"
    and "coachingView (chat_round t m r p) =
           Some (addChatMessage \<lparr>role = Assistant, content = r, message_timestamp = t + 500\<rparr>
                  (addChatMessage \<lparr>role = User, content = m, message_timestamp = t\<rparr> v))"
  by (simp_all add: chat_round_eq[OF assms] handleChatMessage_resume_frame
      handleChatMessage_resume_client handleChatMessage_resume_view)

text \<open>A chat-enabled trigger answered by the backend opens a conversation.\<close>

lemma trigger_round_opens:
  assumes "coachingView p = Some v" "opened v" "apiKey (claudeClient p) \<noteq> []"
    "triggerName res \<in> set (enabledTriggers p)" "enableChat (result_rule res)"
  shows "coachingView (trigger_round t res reply p) =
           Some (showChatInterface
             (v\<lparr>coachingItems := [AdviceItem (rule_name (result_rule res)) reply],
                coachingShown := True\<rparr>))"
    and "claudeClient (trigger_round t res reply p) =
           (claudeClient p)\<lparr>client_conversationHistory :=
              [\<lparr>role = User, content = js ''The writer has paused.'',
                message_timestamp = t + 1000\<rparr>,
               \<lparr>role = Assistant, content = reply, message_timestamp = t + 1000\<rparr>]\<rparr>"
    and "configRules (trigger_round t res reply p) = configRules p"
    and "lastContent (trigger_round t res reply p) = lastContent p"
  using assms
  by (simp_all add: trigger_round_def handleTrigger_begin_def generateCoaching_begin_def
      hasApiKey_def Let_def handleTrigger_resume_def generateCoaching_resume_def
      handleTrigger_show_def showLoading_def hideLoading_def showCoaching_def)

subsection \<open>The sample sessions\<close>

lemma js_nonempty: "js ''sk-test'' \<noteq> []" "js ''I '' \<noteq> []"
  by (simp_all add: js_def)

lemma stuck_result_chat:
  "triggerName stuck_result = js ''stuck''" "enableChat (result_rule stuck_result)"
  "rule_name (result_rule stuck_result) = js ''Stuck/Blocked''"
  by (simp_all add: stuck_result_def stuck_rule_def)

lemma sample_plugin_fields:
  "coachingView (sample_plugin rs) = Some (onOpen new_CoachingView)"
  "apiKey (claudeClient (sample_plugin rs)) = js ''sk-test''"
  "enabledTriggers (sample_plugin rs) = [js ''rushing'', js ''stuck'']"
  "configRules (sample_plugin rs) = rs"
  "lastContent (sample_plugin rs) = []"
  by (simp_all add: sample_plugin_def open_view_def new_plugin_def new_ClaudeClient_def)

lemma conversing_session_view:
  "coachingView (conversing_session rs) =
     Some \<lparr>opened = True, isInConversation = True, view_conversationHistory = [],
           coachingShown = True,
           coachingItems = [AdviceItem (js ''Stuck/Blocked'') (js ''Paused here for a bit.'')],
           chatShown = True, chatRendered = Some []\<rparr>"
  unfolding conversing_session_def
  by (subst trigger_round_opens(1)[where v = "onOpen new_CoachingView"])
     (simp_all add: sample_plugin_fields stuck_result_chat js_nonempty onOpen_def
        new_CoachingView_def showChatInterface_def)

lemma conversing_session_client:
  "claudeClient (conversing_session rs) =
     \<lparr>apiKey = js ''sk-test'',
      client_conversationHistory =
        [\<lparr>role = User, content = js ''The writer has paused.'', message_timestamp = 2000\<rparr>,
         \<lparr>role = Assistant, content = js ''Paused here for a bit.'',
           message_timestamp = 2000\<rparr>]\<rparr>"
  unfolding conversing_session_def
  by (subst trigger_round_opens(2)[where v = "onOpen new_CoachingView"])
     (simp_all add: sample_plugin_fields stuck_result_chat js_nonempty onOpen_def
        sample_plugin_def open_view_def new_plugin_def new_ClaudeClient_def)

lemma conversing_session_frame:
  "configRules (conversing_session rs) = rs" "lastContent (conversing_session rs) = []"
  unfolding conversing_session_def
  by (subst trigger_round_opens[where v = "onOpen new_CoachingView"];
      simp add: sample_plugin_fields stuck_result_chat js_nonempty onOpen_def)+

lemma conversing_session_conversing: "conversing (conversing_session rs)"
  by (simp add: conversing_def conversing_session_view)

lemma long_session_steps:
  fixes p :: WritingCoachPlugin
  assumes "coachingView p = Some v" "apiKey (claudeClient p) = js ''sk-test''"
  shows "\<exists>v'. coachingView (chat_round t m r p) = Some v' \<and>
              isInConversation v' = isInConversation v \<and> chatShown v' = chatShown v \<and>
              view_conversationHistory v' = view_conversationHistory v @
                [\<lparr>role = User, content = m, message_timestamp = t\<rparr>,
                 \<lparr>role = Assistant, content = r, message_timestamp = t + 500\<rparr>] \<and>
              chatRendered v' = map_option (\<lambda>shown. view_conversationHistory v') (chatRendered v)"
    and "apiKey (claudeClient (chat_round t m r p)) = js ''sk-test''"
    and "configRules (chat_round t m r p) = configRules p"
    and "turnHistory (chat_round t m r p) =
           turnHistory p @ [\<lparr>role = User, content = m, message_timestamp = t\<rparr>,
                            \<lparr>role = Assistant, content = r, message_timestamp = t + 500\<rparr>]"
proof -
  have k: "apiKey (claudeClient p) \<noteq> []" by (simp add: assms(2) js_nonempty)
  show "\<exists>v'. coachingView (chat_round t m r p) = Some v' \<and>
              isInConversation v' = isInConversation v \<and> chatShown v' = chatShown v \<and>
              view_conversationHistory v' = view_conversationHistory v @
                [\<lparr>role = User, content = m, message_timestamp = t\<rparr>,
                 \<lparr>role = Assistant, content = r, message_timestamp = t + 500\<rparr>] \<and>
              chatRendered v' = map_option (\<lambda>shown. view_conversationHistory v') (chatRendered v)"
    by (simp add: chat_round_frame(3)[OF assms(1) k] addChatMessage_frame
        addChatMessage_rendered option.map_comp comp_def)
  show "apiKey (claudeClient (chat_round t m r p)) = js ''sk-test''"
    by (simp add: chat_round_frame(2)[OF assms(1) k] assms(2))
  show "configRules (chat_round t m r p) = configRules p"
    by (rule chat_round_frame(1)[OF assms(1) k])
  show "turnHistory (chat_round t m r p) =
           turnHistory p @ [\<lparr>role = User, content = m, message_timestamp = t\<rparr>,
                            \<lparr>role = Assistant, content = r, message_timestamp = t + 500\<rparr>]"
    by (rule chat_round_turnHistory[OF assms(1) k])
qed









lemma long_session_facts:
  "conversing long_session"
  "configRules long_session = limited_rules"
  "turnHistory long_session =
     [\<lparr>role = User, content = js ''The writer has paused.'', message_timestamp = 2000\<rparr>,
      \<lparr>role = Assistant, content = js ''Paused here for a bit.'', message_timestamp = 2000\<rparr>,
      \<lparr>role = User, content = js ''a'', message_timestamp = 3000\<rparr>,
      \<lparr>role = Assistant, content = js ''A'', message_timestamp = 3500\<rparr>,
      \<lparr>role = User, content = js ''b'', message_timestamp = 4000\<rparr>,
      \<lparr>role = Assistant, content = js ''B'', message_timestamp = 4500\<rparr>,
      \<lparr>role = User, content = js ''c'', message_timestamp = 5000\<rparr>,
      \<lparr>role = Assistant, content = js ''C'', message_timestamp = 5500\<rparr>,
      \<lparr>role = User, content = js ''d'', message_timestamp = 6000\<rparr>,
      \<lparr>role = Assistant, content = js ''D'', message_timestamp = 6500\<rparr>]"
  "length (displayed long_session) = 8"
proof -
  let ?p0 = "conversing_session limited_rules"
  let ?p1 = "chat_round 3000 (js ''a'') (js ''A'') ?p0"
  let ?p2 = "chat_round 4000 (js ''b'') (js ''B'') ?p1"
  let ?p3 = "chat_round 5000 (js ''c'') (js ''C'') ?p2"
  let ?p4 = "chat_round 6000 (js ''d'') (js ''D'') ?p3"
  have k0: "apiKey (claudeClient ?p0) = js ''sk-test''" by (simp add: conversing_session_client)
  have h0: "turnHistory ?p0 =
      [\<lparr>role = User, content = js ''The writer has paused.'', message_timestamp = 2000\<rparr>,
       \<lparr>role = Assistant, content = js ''Paused here for a bit.'', message_timestamp = 2000\<rparr>]"
    by (simp add: turnHistory_def conversing_session_client)
  note s1 = long_session_steps[OF conversing_session_view k0, of 3000 "js ''a''" "js ''A''"]
  from s1(1) obtain v1 where v1: "coachingView ?p1 = Some v1" "isInConversation v1"
    "chatShown v1" "length (view_conversationHistory v1) = 2"
    "chatRendered v1 = Some (view_conversationHistory v1)" by auto
  note s2 = long_session_steps[OF v1(1) s1(2), of 4000 "js ''b''" "js ''B''"]
  from s2(1) v1 obtain v2 where v2: "coachingView ?p2 = Some v2" "isInConversation v2"
    "chatShown v2" "length (view_conversationHistory v2) = 4"
    "chatRendered v2 = Some (view_conversationHistory v2)" by auto
  note s3 = long_session_steps[OF v2(1) s2(2), of 5000 "js ''c''" "js ''C''"]
  from s3(1) v2 obtain v3 where v3: "coachingView ?p3 = Some v3" "isInConversation v3"
    "chatShown v3" "length (view_conversationHistory v3) = 6"
    "chatRendered v3 = Some (view_conversationHistory v3)" by auto
  note s4 = long_session_steps[OF v3(1) s3(2), of 6000 "js ''d''" "js ''D''"]
  from s4(1) v3 obtain v4 where v4: "coachingView ?p4 = Some v4" "isInConversation v4"
    "chatShown v4" "length (view_conversationHistory v4) = 8"
    "chatRendered v4 = Some (view_conversationHistory v4)" by auto
  have l: "long_session = ?p4" by (simp add: long_session_def)
  show "conversing long_session" by (simp add: l conversing_def v4)
  show "configRules long_session = limited_rules"
    by (simp add: l s4(3) s3(3) s2(3) s1(3) conversing_session_frame)
  show "turnHistory long_session =
     [\<lparr>role = User, content = js ''The writer has paused.'', message_timestamp = 2000\<rparr>,
      \<lparr>role = Assistant, content = js ''Paused here for a bit.'', message_timestamp = 2000\<rparr>,
      \<lparr>role = User, content = js ''a'', message_timestamp = 3000\<rparr>,
      \<lparr>role = Assistant, content = js ''A'', message_timestamp = 3500\<rparr>,
      \<lparr>role = User, content = js ''b'', message_timestamp = 4000\<rparr>,
      \<lparr>role = Assistant, content = js ''B'', message_timestamp = 4500\<rparr>,
      \<lparr>role = User, content = js ''c'', message_timestamp = 5000\<rparr>,
      \<lparr>role = Assistant, content = js ''C'', message_timestamp = 5500\<rparr>,
      \<lparr>role = User, content = js ''d'', message_timestamp = 6000\<rparr>,
      \<lparr>role = Assistant, content = js ''D'', message_timestamp = 6500\<rparr>]"
    by (simp add: l s4(4) s3(4) s2(4) s1(4) h0)
  show "length (displayed long_session) = 8"
    by (simp add: l displayed_def v4)
qed

text \<open>
  Claim C5, at an input where the code departs from it. Under rules whose maximum turn count is
  3, a conversation that the rule \<open>stuck\<close> opened and in which the user then sent four
  messages, each answered, is still a conversation: nothing closed it at the third
  exchange, and it holds five exchanges (ten turns), eight of them shown in the chat panel.
\<close>

theorem turn_limit_not_applied:
  "spec_max_turns long_session = Some 3 \<and>
   conversing long_session \<and>
   exchanges long_session = 5 \<and>
   length (turnHistory long_session) = 10 \<and>
   length (displayed long_session) = 8"
  by (simp add: spec_max_turns_def exchanges_def long_session_facts limited_rules_def)


end
